theory Spec2Isabelle
  imports Main "HOL-Library.Word"
begin

section \<open>Nullability kinds and vectors\<close>

text \<open>
  \<^verbatim>\<open>NullabilityKind\<close> is clang's three-valued annotation; a \<^verbatim>\<open>TypeNullability\<close> is the
  vector of annotations of a type, one entry per pointer position, outer to inner.
\<close>

datatype NullabilityKind = NonNull | Nullable | Unspecified

type_synonym TypeNullability = "NullabilityKind list"

section \<open>Types of the AST\<close>

text \<open>
  The part of clang's type hierarchy that \<^verbatim>\<open>type_nullability.cc\<close> looks at. Local
  qualifiers (const, volatile) are left out: the walker reads \<^verbatim>\<open>T.getTypePtr()\<close> and the
  rebuilder puts the qualifiers back unchanged. Declarations are identified by a number
  (the address of the \<^verbatim>\<open>Decl\<close> in the source).

  A \<^verbatim>\<open>TemplateDecl\<close> is the template a template name refers to: whether it is an
  alias template (\<^verbatim>\<open>TemplateDecl::isTypeAlias\<close>), whether it has a templated declaration (a
  builtin template has none) and the string of its first \<^verbatim>\<open>annotate\<close> attribute. A
  \<^verbatim>\<open>ClassTemplateDecl\<close> is a template declaration that is not an alias.

  \<^verbatim>\<open>AttributedType NK T\<close> has the immediate nullability \<^verbatim>\<open>NK\<close> (none for any other
  attribute) and the modified type \<^verbatim>\<open>T\<close>.
  \<^verbatim>\<open>ElaboratedType NNS T\<close> lists its nested name specifiers from right to left, each with
  \<^verbatim>\<open>getAsType()\<close> (none for a namespace), and names \<^verbatim>\<open>T\<close>.
  \<^verbatim>\<open>TemplateSpecializationType TD As T\<close> has the template declaration of its template
  name, the arguments as written and the type it desugars to.
  \<^verbatim>\<open>SubstTemplateTypeParmType D Index PackIndex Part T\<close> has the associated declaration,
  the index of the replaced parameter, the pack index, whether the replaced parameter
  belongs to a partial specialization, and the replacement type.
  \<^verbatim>\<open>MemberPointerType\<close> stands for the non-sugar types the walker does not look into.
  A \<^verbatim>\<open>CXXRecordDecl\<close> has its enclosing class (none when the declaration context is not
  a class) and, when it is a class template specialization, its canonical template
  arguments, its template and whether it was instantiated from a partial specialization.
\<close>

datatype BuiltinKind = BK_Void | BK_Bool | BK_Int | BK_NullPtr | BK_BoundMember | BK_Other nat

datatype TemplateDecl = TemplateDecl
  (tdId: nat) (isAliasTemplate: bool) (hasTemplatedDecl: bool) (getAnnotateAttr: "string option")

datatype ClassTemplateDecl = ClassTemplateDecl (ctdId: nat) (ctdAnnotateAttr: "string option")

definition asTemplateDecl :: "ClassTemplateDecl \<Rightarrow> TemplateDecl" where
  "asTemplateDecl CTD = TemplateDecl (ctdId CTD) False True (ctdAnnotateAttr CTD)"

datatype Type =
    BuiltinType BuiltinKind
  | PointerType Type
  | LValueReferenceType Type
  | RValueReferenceType Type
  | ConstantArrayType Type nat
  | IncompleteArrayType Type
  | VariableArrayType Type
  | FunctionProtoType Type "Type list"
  | MemberPointerType Type
  | RecordType RecordDecl
  | AttributedType "NullabilityKind option" Type
  | TypedefType Type
  | ElaboratedType "Type option list" Type
  | TemplateSpecializationType "TemplateDecl option" "TemplateArgument list" Type
  | SubstTemplateTypeParmType nat nat "nat option" bool Type
and TemplateArgument =
    TA_Type Type
  | TA_Pack "TemplateArgument list"
  | TA_Other
and RecordDecl =
    CXXRecordDecl (declId: nat) (getDeclContext: "RecordDecl option")
      (asSpecialization: "ClassTemplateSpecializationDecl option")
and ClassTemplateSpecializationDecl =
    ClassTemplateSpecializationDecl (getTemplateArgs: "TemplateArgument list")
      (getSpecializedTemplate: ClassTemplateDecl) (patternIsPartialSpecialization: bool)

section \<open>Errors\<close>

text \<open>
  Every \<^verbatim>\<open>CHECK\<close> of the source that aborts the process, and every read the source makes
  without a bounds check, is an error value of the model. \<^verbatim>\<open>OutOfFuel\<close> is the model's
  own: the walker follows substituted template parameters into the template context, and
  that recursion is bounded by fuel.
\<close>

datatype error =
    BrokenTypeSugar
  | ExpectedAliasOrClassSpecialization
  | NullDeclCast
  | OutOfFuel
  | VectorTooShort
  | VectorTooLong
  | EmptyVector
  | IndexOutOfRange
  | DependentCast
  | BaseNotPointer
  | NoBoundMemberType
  | NoValue
  | UnexpectedOpcode

definition andThen :: "error + 'a \<Rightarrow> ('a \<Rightarrow> error + 'b) \<Rightarrow> error + 'b" where
  "andThen m f = (case m of Inl e \<Rightarrow> Inl e | Inr x \<Rightarrow> f x)"

section \<open>The nullability walker (type_nullability.cc)\<close>

fun getAliasNullability :: "TemplateDecl option \<Rightarrow> NullabilityKind option" where
  "getAliasNullability None = None"
| "getAliasNullability (Some TD) =
     (if \<not> hasTemplatedDecl TD then None
      else case getAnnotateAttr TD of
        None \<Rightarrow> None
      | Some A \<Rightarrow>
          if A = ''Nullable'' then Some Nullable
          else if A = ''Nonnull'' then Some NonNull
          else if A = ''Nullability_Unspecified'' then Some Unspecified
          else None)"

text \<open>
  The walker's mutable members are \<^verbatim>\<open>PendingNullability\<close> and the state of the derived
  class (a counter, or the vector of annotations). \<^verbatim>\<open>CurrentTemplateContext\<close> is only
  changed through \<^verbatim>\<open>SaveAndRestore\<close>, so it is an argument of the walk. The derived class
  gives \<^verbatim>\<open>report\<close> and may override \<^verbatim>\<open>VisitSubstTemplateTypeParmType\<close>: the override
  returns the new derived state when it handles the type itself and \<^verbatim>\<open>None\<close> when it
  calls the walker's own method.
\<close>

datatype 's Walker = Walker (PendingNullability: "NullabilityKind option") (derived: 's)

datatype 's Impl = Impl
  (report: "NullabilityKind \<Rightarrow> 's \<Rightarrow> 's")
  (overrideSubstTemplateTypeParm: "Type \<Rightarrow> 's \<Rightarrow> error + 's option")

fun sawNullability :: "NullabilityKind \<Rightarrow> 's Walker \<Rightarrow> 's Walker" where
  "sawNullability NK (Walker P s) = (if P = None then Walker (Some NK) s else Walker P s)"

fun ignoreUnexpectedNullability :: "'s Walker \<Rightarrow> 's Walker" where
  "ignoreUnexpectedNullability (Walker P s) = Walker None s"

datatype TemplateContext = TemplateContext
  (AssociatedDecl: "nat option") (Args: "TemplateArgument list option")
  (Extends: "TemplateContext option") (ArgContext: "TemplateContext option")

fun getAsCXXRecordDecl :: "Type \<Rightarrow> RecordDecl option" where
  "getAsCXXRecordDecl (RecordType D) = Some D"
| "getAsCXXRecordDecl (AttributedType NK T) = getAsCXXRecordDecl T"
| "getAsCXXRecordDecl (TypedefType T) = getAsCXXRecordDecl T"
| "getAsCXXRecordDecl (ElaboratedType Q T) = getAsCXXRecordDecl T"
| "getAsCXXRecordDecl (TemplateSpecializationType TD As T) = getAsCXXRecordDecl T"
| "getAsCXXRecordDecl (SubstTemplateTypeParmType D I P Part T) = getAsCXXRecordDecl T"
| "getAsCXXRecordDecl T = None"

definition isTypeAlias :: "TemplateDecl option \<Rightarrow> bool" where
  "isTypeAlias TD = (case TD of None \<Rightarrow> False | Some D \<Rightarrow> isAliasTemplate D)"

text \<open>
  \<^verbatim>\<open>Index = Ctx->Args->size() - 1 - *PackIndex\<close> is computed in unsigned arithmetic and
  stored in an \<^verbatim>\<open>unsigned\<close>: it wraps when the pack index is too large.
\<close>

definition packAdjustedIndex :: "nat \<Rightarrow> nat option \<Rightarrow> nat \<Rightarrow> nat" where
  "packAdjustedIndex Index PackIndex n =
     (case PackIndex of
        None \<Rightarrow> Index
      | Some p \<Rightarrow> nat ((int n - 1 - int p) mod 2 ^ 32))"

text \<open>
  The loop of \<^verbatim>\<open>VisitSubstTemplateTypeParmType\<close> over the contexts: the sugared argument
  the parameter is bound to, if one is found.
\<close>

fun findSugaredArg ::
    "nat \<Rightarrow> nat \<Rightarrow> nat option \<Rightarrow> TemplateContext option \<Rightarrow> TemplateArgument option" where
  "findSugaredArg D Index PackIndex None = None"
| "findSugaredArg D Index PackIndex (Some (TemplateContext AD As Ext ArgCtx)) =
     (if Some D \<noteq> AD then findSugaredArg D Index PackIndex Ext
      else case As of
        None \<Rightarrow> None
      | Some Written \<Rightarrow>
          (let I = packAdjustedIndex Index PackIndex (length Written) in
           if I < length Written then Some (Written ! I)
           else findSugaredArg D Index PackIndex Ext))"

fun translateTemplateArgsForSpecialization ::
    "RecordDecl \<Rightarrow> TemplateArgument list option \<Rightarrow> TemplateArgument list option" where
  "translateTemplateArgsForSpecialization D As =
     (case asSpecialization D of
        None \<Rightarrow> As
      | Some CTSD \<Rightarrow> if patternIsPartialSpecialization CTSD then None else As)"

text \<open>
  The first loop of \<^verbatim>\<open>VisitElaboratedType\<close>: one context for every qualifier that is a
  template specialization type, and then the chaining of the contexts through
  \<^verbatim>\<open>Extends\<close>. A class specialization with no record declaration makes
  \<^verbatim>\<open>translateTemplateArgsForSpecialization\<close> cast a null declaration.
\<close>

fun boundTemplateArgs ::
    "TemplateContext option \<Rightarrow> Type option list \<Rightarrow> error + TemplateContext list" where
  "boundTemplateArgs Cur [] = Inr []"
| "boundTemplateArgs Cur (Some (TemplateSpecializationType TD As T) # NNS) =
     andThen
       (if isTypeAlias TD then Inr (TemplateContext (map_option tdId TD) (Some As) None Cur)
        else case getAsCXXRecordDecl T of
          None \<Rightarrow> Inl NullDeclCast
        | Some CRD \<Rightarrow>
            Inr (TemplateContext (Some (declId CRD))
                  (translateTemplateArgsForSpecialization CRD (Some As)) None Cur))
       (\<lambda>Ctx. andThen (boundTemplateArgs Cur NNS) (\<lambda>Rest. Inr (Ctx # Rest)))"
| "boundTemplateArgs Cur (Q # NNS) = boundTemplateArgs Cur NNS"

fun chainContexts ::
    "TemplateContext list \<Rightarrow> TemplateContext option \<Rightarrow> TemplateContext option" where
  "chainContexts [] Cur = Cur"
| "chainContexts (TemplateContext AD As Ext ArgCtx # Rest) Cur =
     Some (TemplateContext AD As (chainContexts Rest Cur) ArgCtx)"

lemma size_getAsCXXRecordDecl:
  "getAsCXXRecordDecl T = Some D \<Longrightarrow> size D < size T"
  by (induction T rule: getAsCXXRecordDecl.induct) auto

lemma size_getDeclContext: "size_option size (getDeclContext D) < size D"
  by (cases D) simp

lemma size_getTemplateArgs:
  "asSpecialization D = Some CTSD \<Longrightarrow> size_list size (getTemplateArgs CTSD) < size D"
  by (cases D; cases CTSD) simp

lemma size_list_drop: "size_list f (drop n xs) \<le> size_list f xs"
  by (induction xs arbitrary: n)
     (auto simp: drop_Cons split: nat.splits intro: le_SucI trans_le_add2)

text \<open>
  \<^verbatim>\<open>NullabilityWalker\<close>. \<^verbatim>\<open>Visit\<close> is the dispatch of \<^verbatim>\<open>TypeVisitor\<close> on the class of
  the type; the classes the walker does not override go to \<^verbatim>\<open>VisitType\<close>, which desugars
  one step (typedefs) or, on a non-sugar type, drops the pending nullability. Walking a
  sugared template argument in place of a substituted parameter is the one call that is
  not on a part of the type walked: it takes one unit of fuel.
\<close>

function
  Visit :: "'s Impl \<Rightarrow> nat \<Rightarrow> TemplateContext option \<Rightarrow> Type \<Rightarrow> 's Walker
    \<Rightarrow> error + 's Walker"
and VisitTypes :: "'s Impl \<Rightarrow> nat \<Rightarrow> TemplateContext option \<Rightarrow> Type list \<Rightarrow> 's Walker
    \<Rightarrow> error + 's Walker"
and VisitTemplateArgument :: "'s Impl \<Rightarrow> nat \<Rightarrow> TemplateContext option \<Rightarrow> TemplateArgument
    \<Rightarrow> 's Walker \<Rightarrow> error + 's Walker"
and VisitTemplateArguments :: "'s Impl \<Rightarrow> nat \<Rightarrow> TemplateContext option
    \<Rightarrow> TemplateArgument list \<Rightarrow> 's Walker \<Rightarrow> error + 's Walker"
and VisitDeclContext :: "'s Impl \<Rightarrow> nat \<Rightarrow> TemplateContext option \<Rightarrow> RecordDecl option
    \<Rightarrow> 's Walker \<Rightarrow> error + 's Walker"
where
  "Visit impl fuel Cur (BuiltinType K) W = Inr (ignoreUnexpectedNullability W)"
| "Visit impl fuel Cur (MemberPointerType T) W = Inr (ignoreUnexpectedNullability W)"
| "Visit impl fuel Cur (TypedefType T) W = Visit impl fuel Cur T W"
| "Visit impl fuel Cur (PointerType T) W =
     Visit impl fuel Cur T
       (Walker None
          (report impl (case PendingNullability W of None \<Rightarrow> Unspecified | Some NK \<Rightarrow> NK)
             (derived W)))"
| "Visit impl fuel Cur (LValueReferenceType T) W =
     Visit impl fuel Cur T (ignoreUnexpectedNullability W)"
| "Visit impl fuel Cur (RValueReferenceType T) W =
     Visit impl fuel Cur T (ignoreUnexpectedNullability W)"
| "Visit impl fuel Cur (ConstantArrayType T n) W =
     Visit impl fuel Cur T (ignoreUnexpectedNullability W)"
| "Visit impl fuel Cur (IncompleteArrayType T) W =
     Visit impl fuel Cur T (ignoreUnexpectedNullability W)"
| "Visit impl fuel Cur (VariableArrayType T) W =
     Visit impl fuel Cur T (ignoreUnexpectedNullability W)"
| "Visit impl fuel Cur (FunctionProtoType R Ps) W =
     andThen (Visit impl fuel Cur R (ignoreUnexpectedNullability W))
       (VisitTypes impl fuel Cur Ps)"
| "Visit impl fuel Cur (RecordType D) W =
     andThen (VisitDeclContext impl fuel Cur (getDeclContext D) (ignoreUnexpectedNullability W))
       (\<lambda>W1. case asSpecialization D of
                None \<Rightarrow> Inr W1
              | Some CTSD \<Rightarrow> VisitTemplateArguments impl fuel Cur (getTemplateArgs CTSD) W1)"
| "Visit impl fuel Cur (AttributedType NK T) W =
     andThen
       (Visit impl fuel Cur T (case NK of None \<Rightarrow> W | Some K \<Rightarrow> sawNullability K W))
       (\<lambda>W1. if PendingNullability W1 = None then Inr W1 else Inl BrokenTypeSugar)"
| "Visit impl fuel Cur (ElaboratedType NNS T) W =
     (case boundTemplateArgs Cur NNS of
        Inl e \<Rightarrow> Inl e
      | Inr Bound \<Rightarrow> Visit impl fuel (chainContexts Bound Cur) T W)"
| "Visit impl fuel Cur (TemplateSpecializationType TD As T) W =
     (if isTypeAlias TD then
        Visit impl fuel
          (Some (TemplateContext (map_option tdId TD) (Some As) Cur Cur)) T
          (case getAliasNullability TD of None \<Rightarrow> W | Some NK \<Rightarrow> sawNullability NK W)
      else case getAsCXXRecordDecl T of
        None \<Rightarrow> Inl ExpectedAliasOrClassSpecialization
      | Some CRD \<Rightarrow>
          andThen
            (VisitDeclContext impl fuel Cur (getDeclContext CRD)
               (ignoreUnexpectedNullability W))
            (\<lambda>W1. andThen (VisitTemplateArguments impl fuel Cur As W1)
               (\<lambda>W2. case asSpecialization CRD of
                        None \<Rightarrow> Inr W2
                      | Some CTSD \<Rightarrow>
                          VisitTemplateArguments impl fuel Cur
                            (drop (length As) (getTemplateArgs CTSD)) W2)))"
| "Visit impl fuel Cur (SubstTemplateTypeParmType D Index PackIndex Part T) W =
     (case overrideSubstTemplateTypeParm impl
             (SubstTemplateTypeParmType D Index PackIndex Part T) (derived W) of
        Inl e \<Rightarrow> Inl e
      | Inr (Some s) \<Rightarrow> Inr (Walker (PendingNullability W) s)
      | Inr None \<Rightarrow>
          (case findSugaredArg D Index PackIndex Cur of
             Some Arg \<Rightarrow>
               (case fuel of
                  0 \<Rightarrow> Inl OutOfFuel
                | Suc fuel' \<Rightarrow>
                    VisitTemplateArgument impl fuel'
                      (case Cur of None \<Rightarrow> None | Some C \<Rightarrow> ArgContext C) Arg W)
           | None \<Rightarrow> Visit impl fuel Cur T W))"
| "VisitTypes impl fuel Cur [] W = Inr W"
| "VisitTypes impl fuel Cur (T # Ts) W =
     andThen (Visit impl fuel Cur T W) (VisitTypes impl fuel Cur Ts)"
| "VisitTemplateArgument impl fuel Cur (TA_Type T) W = Visit impl fuel Cur T W"
| "VisitTemplateArgument impl fuel Cur (TA_Pack Elts) W =
     VisitTemplateArguments impl fuel Cur Elts W"
| "VisitTemplateArgument impl fuel Cur TA_Other W = Inr W"
| "VisitTemplateArguments impl fuel Cur [] W = Inr W"
| "VisitTemplateArguments impl fuel Cur (TA # TAs) W =
     andThen (VisitTemplateArgument impl fuel Cur TA W)
       (VisitTemplateArguments impl fuel Cur TAs)"
| "VisitDeclContext impl fuel Cur None W = Inr W"
| "VisitDeclContext impl fuel Cur (Some CRD) W = Visit impl fuel Cur (RecordType CRD) W"
  by pat_completeness auto
termination
  apply (relation "inv_image (less_than <*lex*> less_than)
    (\<lambda>x. case x of
       Inl (Inl (impl, fuel, Cur, T, W)) \<Rightarrow> (fuel, 2 * size T + 2)
     | Inl (Inr (impl, fuel, Cur, Ts, W)) \<Rightarrow> (fuel, 2 * size_list size Ts + 1)
     | Inr (Inl (impl, fuel, Cur, TA, W)) \<Rightarrow> (fuel, 2 * size TA + 2)
     | Inr (Inr (Inl (impl, fuel, Cur, TAs, W))) \<Rightarrow> (fuel, 2 * size_list size TAs + 1)
     | Inr (Inr (Inr (impl, fuel, Cur, DC, W))) \<Rightarrow> (fuel, 2 * size_option size DC + 3))")
  apply simp_all
  subgoal by (intro wf_inv_image wf_lex_prod wf_less_than)
  subgoal for D using size_getDeclContext[of D] by simp
  subgoal for D CTSD using size_getTemplateArgs[of D CTSD] by simp
  subgoal for TD As T CRD
    using size_getAsCXXRecordDecl[of T CRD] size_getDeclContext[of CRD] by simp
  subgoal for TD As T CRD CTSD
    using size_getAsCXXRecordDecl[of T CRD] size_getTemplateArgs[of CRD CTSD]
      size_list_drop[of size "length As" "getTemplateArgs CTSD"] by simp
  done

text \<open>
  \<^verbatim>\<open>countPointers\<close>: the walker whose \<^verbatim>\<open>report\<close> increments an \<^verbatim>\<open>unsigned\<close> counter.
\<close>

definition countWalker :: "32 word Impl" where
  "countWalker = Impl (\<lambda>NK Count. Count + 1) (\<lambda>ST Count. Inr None)"

definition countPointersInType :: "nat \<Rightarrow> Type \<Rightarrow> error + 32 word" where
  "countPointersInType fuel T =
     andThen (Visit countWalker fuel None T (Walker None 0)) (\<lambda>W. Inr (derived W))"

definition countPointersInDeclContext :: "nat \<Rightarrow> RecordDecl option \<Rightarrow> error + 32 word" where
  "countPointersInDeclContext fuel DC =
     andThen (VisitDeclContext countWalker fuel None DC (Walker None 0)) (\<lambda>W. Inr (derived W))"

definition countPointersInTemplateArgument :: "nat \<Rightarrow> TemplateArgument \<Rightarrow> error + 32 word" where
  "countPointersInTemplateArgument fuel TA =
     andThen (VisitTemplateArgument countWalker fuel None TA (Walker None 0))
       (\<lambda>W. Inr (derived W))"

text \<open>
  \<^verbatim>\<open>getNullabilityAnnotationsFromType\<close>: the walker whose \<^verbatim>\<open>report\<close> appends to the vector,
  and whose \<^verbatim>\<open>VisitSubstTemplateTypeParmType\<close> asks the callback first. The \<^verbatim>\<open>DCHECK_EQ\<close>
  on the size of the substituted vector is compiled out of an optimized build and is not
  part of the model.
\<close>

type_synonym GetTypeParamNullability = "Type \<Rightarrow> error + TypeNullability option"

definition annotationWalker :: "GetTypeParamNullability option \<Rightarrow> TypeNullability Impl" where
  "annotationWalker SubstituteTypeParam =
     Impl (\<lambda>NK Annotations. Annotations @ [NK])
       (\<lambda>ST Annotations.
          case SubstituteTypeParam of
            None \<Rightarrow> Inr None
          | Some f \<Rightarrow>
              (case f ST of
                 Inl e \<Rightarrow> Inl e
               | Inr None \<Rightarrow> Inr None
               | Inr (Some Subst) \<Rightarrow> Inr (Some (Annotations @ Subst))))"

definition getNullabilityAnnotationsFromType ::
    "nat \<Rightarrow> Type \<Rightarrow> GetTypeParamNullability option \<Rightarrow> error + TypeNullability" where
  "getNullabilityAnnotationsFromType fuel T SubstituteTypeParam =
     andThen (Visit (annotationWalker SubstituteTypeParam) fuel None T (Walker None []))
       (\<lambda>W. Inr (derived W))"

section \<open>Canonical types\<close>

text \<open>
  clang stores the canonical type of every type; here it is computed by removing the
  sugar. \<^verbatim>\<open>getAsPointee\<close> is \<^verbatim>\<open>getAs<PointerType>()\<close> followed by \<^verbatim>\<open>getPointeeType()\<close>:
  it looks through the sugar at the top of the type.
\<close>

fun getCanonicalType :: "Type \<Rightarrow> Type" where
  "getCanonicalType (BuiltinType K) = BuiltinType K"
| "getCanonicalType (PointerType T) = PointerType (getCanonicalType T)"
| "getCanonicalType (LValueReferenceType T) = LValueReferenceType (getCanonicalType T)"
| "getCanonicalType (RValueReferenceType T) = RValueReferenceType (getCanonicalType T)"
| "getCanonicalType (ConstantArrayType T n) = ConstantArrayType (getCanonicalType T) n"
| "getCanonicalType (IncompleteArrayType T) = IncompleteArrayType (getCanonicalType T)"
| "getCanonicalType (VariableArrayType T) = VariableArrayType (getCanonicalType T)"
| "getCanonicalType (FunctionProtoType R Ps) =
     FunctionProtoType (getCanonicalType R) (map getCanonicalType Ps)"
| "getCanonicalType (MemberPointerType T) = MemberPointerType (getCanonicalType T)"
| "getCanonicalType (RecordType D) = RecordType D"
| "getCanonicalType (AttributedType NK T) = getCanonicalType T"
| "getCanonicalType (TypedefType T) = getCanonicalType T"
| "getCanonicalType (ElaboratedType NNS T) = getCanonicalType T"
| "getCanonicalType (TemplateSpecializationType TD As T) = getCanonicalType T"
| "getCanonicalType (SubstTemplateTypeParmType D I P Part T) = getCanonicalType T"

fun getAsPointee :: "Type \<Rightarrow> Type option" where
  "getAsPointee (PointerType T) = Some T"
| "getAsPointee (AttributedType NK T) = getAsPointee T"
| "getAsPointee (TypedefType T) = getAsPointee T"
| "getAsPointee (ElaboratedType NNS T) = getAsPointee T"
| "getAsPointee (TemplateSpecializationType TD As T) = getAsPointee T"
| "getAsPointee (SubstTemplateTypeParmType D I P Part T) = getAsPointee T"
| "getAsPointee T = None"

definition isPointerType :: "Type \<Rightarrow> bool" where
  "isPointerType T = (case getCanonicalType T of PointerType P \<Rightarrow> True | _ \<Rightarrow> False)"

definition isNullPtrType :: "Type \<Rightarrow> bool" where
  "isNullPtrType T = (getCanonicalType T = BuiltinType BK_NullPtr)"

section \<open>The rebuilder (type_nullability.cc)\<close>

text \<open>
  \<^verbatim>\<open>Rebuilder\<close> consumes the vector from the front; its member \<^verbatim>\<open>Nullability\<close> is
  threaded through the visit. A type class it does not handle is returned as it is, and
  so is a template argument that is not a type.
\<close>

function (sequential)
  Rebuilder_Visit :: "Type \<Rightarrow> TypeNullability \<Rightarrow> error + Type \<times> TypeNullability"
and Rebuilder_VisitTypes :: "Type list \<Rightarrow> TypeNullability \<Rightarrow> error + Type list \<times> TypeNullability"
and Rebuilder_VisitTemplateArgument ::
      "TemplateArgument \<Rightarrow> TypeNullability \<Rightarrow> error + TemplateArgument \<times> TypeNullability"
and Rebuilder_VisitTemplateArguments ::
      "TemplateArgument list \<Rightarrow> TypeNullability
         \<Rightarrow> error + TemplateArgument list \<times> TypeNullability"
where
  "Rebuilder_Visit (PointerType T) Nullability =
     (case Nullability of
        [] \<Rightarrow> Inl VectorTooShort
      | NK # Rest \<Rightarrow>
          andThen (Rebuilder_Visit T Rest)
            (\<lambda>(Pointee, Rest').
               Inr (if NK = Unspecified then PointerType Pointee
                    else AttributedType (Some NK) (PointerType Pointee), Rest')))"
| "Rebuilder_Visit (RecordType D) Nullability =
     (case asSpecialization D of
        None \<Rightarrow> Inr (RecordType D, Nullability)
      | Some CTSD \<Rightarrow>
          andThen (Rebuilder_VisitTemplateArguments (getTemplateArgs CTSD) Nullability)
            (\<lambda>(TransformedArgs, Rest).
               Inr (TemplateSpecializationType
                      (Some (asTemplateDecl (getSpecializedTemplate CTSD))) TransformedArgs
                      (RecordType D), Rest)))"
| "Rebuilder_Visit (FunctionProtoType R Ps) Nullability =
     andThen (Rebuilder_Visit R Nullability)
       (\<lambda>(Ret, Rest).
          andThen (Rebuilder_VisitTypes Ps Rest)
            (\<lambda>(Params, Rest'). Inr (FunctionProtoType Ret Params, Rest')))"
| "Rebuilder_Visit (LValueReferenceType T) Nullability =
     andThen (Rebuilder_Visit T Nullability)
       (\<lambda>(Pointee, Rest). Inr (LValueReferenceType Pointee, Rest))"
| "Rebuilder_Visit (RValueReferenceType T) Nullability =
     andThen (Rebuilder_Visit T Nullability)
       (\<lambda>(Pointee, Rest). Inr (RValueReferenceType Pointee, Rest))"
| "Rebuilder_Visit (ConstantArrayType T n) Nullability =
     andThen (Rebuilder_Visit T Nullability)
       (\<lambda>(Elt, Rest). Inr (ConstantArrayType Elt n, Rest))"
| "Rebuilder_Visit (IncompleteArrayType T) Nullability =
     andThen (Rebuilder_Visit T Nullability)
       (\<lambda>(Elt, Rest). Inr (IncompleteArrayType Elt, Rest))"
| "Rebuilder_Visit (VariableArrayType T) Nullability =
     andThen (Rebuilder_Visit T Nullability)
       (\<lambda>(Elt, Rest). Inr (VariableArrayType Elt, Rest))"
| "Rebuilder_Visit T Nullability = Inr (T, Nullability)"
| "Rebuilder_VisitTypes [] Nullability = Inr ([], Nullability)"
| "Rebuilder_VisitTypes (T # Ts) Nullability =
     andThen (Rebuilder_Visit T Nullability)
       (\<lambda>(T', Rest).
          andThen (Rebuilder_VisitTypes Ts Rest) (\<lambda>(Ts', Rest'). Inr (T' # Ts', Rest')))"
| "Rebuilder_VisitTemplateArgument (TA_Type T) Nullability =
     andThen (Rebuilder_Visit T Nullability) (\<lambda>(T', Rest). Inr (TA_Type T', Rest))"
| "Rebuilder_VisitTemplateArgument TA Nullability = Inr (TA, Nullability)"
| "Rebuilder_VisitTemplateArguments [] Nullability = Inr ([], Nullability)"
| "Rebuilder_VisitTemplateArguments (TA # TAs) Nullability =
     andThen (Rebuilder_VisitTemplateArgument TA Nullability)
       (\<lambda>(TA', Rest).
          andThen (Rebuilder_VisitTemplateArguments TAs Rest)
            (\<lambda>(TAs', Rest'). Inr (TA' # TAs', Rest')))"
  by pat_completeness auto
termination
  apply (relation "measure (\<lambda>x. case x of
      Inl (Inl (T, N)) \<Rightarrow> size T
    | Inl (Inr (Ts, N)) \<Rightarrow> size_list size Ts
    | Inr (Inl (TA, N)) \<Rightarrow> size TA
    | Inr (Inr (TAs, N)) \<Rightarrow> size_list size TAs)")
  apply (auto dest!: size_getTemplateArgs)
  done

definition rebuildWithNullability :: "Type \<Rightarrow> TypeNullability \<Rightarrow> error + Type" where
  "rebuildWithNullability T Nullability =
     andThen (Rebuilder_Visit (getCanonicalType T) Nullability)
       (\<lambda>(Result, Rest). if Rest = [] then Inr Result else Inl VectorTooLong)"

section \<open>The walker before the unification (nullability_verification)\<close>

text \<open>
  \<^verbatim>\<open>GetNullabilityAnnotationsFromTypeVisitor\<close> of
  \<^verbatim>\<open>nullability_verification/pointer_nullability_analysis.cc\<close>: it overrides the visit of
  elaborated, template specialization, attributed and pointer types, and does nothing on
  any other type.
\<close>

lemma size_getAsPointee: "getAsPointee T = Some P \<Longrightarrow> size P < size T"
  by (induction T rule: getAsPointee.induct) auto

function (sequential)
  GetNullabilityAnnotationsFromTypeVisitor_Visit ::
    "Type \<Rightarrow> TypeNullability \<Rightarrow> TypeNullability"
and GetNullabilityAnnotationsFromTypeVisitor_VisitArgs ::
    "TemplateArgument list \<Rightarrow> TypeNullability \<Rightarrow> TypeNullability"
where
  "GetNullabilityAnnotationsFromTypeVisitor_Visit (ElaboratedType NNS T) Annotations =
     GetNullabilityAnnotationsFromTypeVisitor_Visit T Annotations"
| "GetNullabilityAnnotationsFromTypeVisitor_Visit (TemplateSpecializationType TD As T)
     Annotations = GetNullabilityAnnotationsFromTypeVisitor_VisitArgs As Annotations"
| "GetNullabilityAnnotationsFromTypeVisitor_Visit (AttributedType NK MT) Annotations =
     (case NK of
        Some K \<Rightarrow>
          (case getAsPointee MT of
             Some Pointee \<Rightarrow>
               GetNullabilityAnnotationsFromTypeVisitor_Visit Pointee (Annotations @ [K])
           | None \<Rightarrow> Annotations @ [K])
      | None \<Rightarrow> GetNullabilityAnnotationsFromTypeVisitor_Visit MT Annotations)"
| "GetNullabilityAnnotationsFromTypeVisitor_Visit (PointerType T) Annotations =
     GetNullabilityAnnotationsFromTypeVisitor_Visit T (Annotations @ [Unspecified])"
| "GetNullabilityAnnotationsFromTypeVisitor_Visit T Annotations = Annotations"
| "GetNullabilityAnnotationsFromTypeVisitor_VisitArgs [] Annotations = Annotations"
| "GetNullabilityAnnotationsFromTypeVisitor_VisitArgs (TA_Type T # TAs) Annotations =
     GetNullabilityAnnotationsFromTypeVisitor_VisitArgs TAs
       (GetNullabilityAnnotationsFromTypeVisitor_Visit T Annotations)"
| "GetNullabilityAnnotationsFromTypeVisitor_VisitArgs (TA # TAs) Annotations =
     GetNullabilityAnnotationsFromTypeVisitor_VisitArgs TAs Annotations"
  by pat_completeness auto
termination
  apply (relation "measure (\<lambda>x. case x of
      Inl (T, A) \<Rightarrow> size T
    | Inr (TAs, A) \<Rightarrow> size_list size TAs)")
  apply (auto dest!: size_getAsPointee)
  done

definition getNullabilityAnnotationsFromType_verification :: "Type \<Rightarrow> TypeNullability" where
  "getNullabilityAnnotationsFromType_verification T =
     GetNullabilityAnnotationsFromTypeVisitor_Visit T []"

section \<open>Expressions\<close>

text \<open>
  An expression has an identity (the address of the \<^verbatim>\<open>Expr\<close>), a type and the data of
  its statement class that the analysis reads. A cast records whether it is an
  \<^verbatim>\<open>ImplicitCastExpr\<close>; a declaration reference lists, for each explicit template argument,
  the type of its \<^verbatim>\<open>TypeSourceInfo\<close> (none for an argument that is not a type). A value
  declaration has its type, whether it is a \<^verbatim>\<open>FunctionDecl\<close> and its primary template.
\<close>

datatype CastKind =
    CK_Dependent | CK_BitCast | CK_LValueBitCast | CK_LValueToRValueBitCast
  | CK_LValueToRValue | CK_NoOp | CK_BaseToDerived | CK_DerivedToBase
  | CK_UncheckedDerivedToBase | CK_Dynamic | CK_ToUnion | CK_ArrayToPointerDecay
  | CK_FunctionToPointerDecay | CK_NullToPointer | CK_NullToMemberPointer
  | CK_BaseToDerivedMemberPointer | CK_DerivedToBaseMemberPointer
  | CK_MemberPointerToBoolean | CK_ReinterpretMemberPointer | CK_UserDefinedConversion
  | CK_ConstructorConversion | CK_IntegralToPointer | CK_PointerToIntegral
  | CK_PointerToBoolean | CK_ToVoid | CK_MatrixCast | CK_VectorSplat | CK_IntegralCast
  | CK_IntegralToBoolean | CK_IntegralToFloating | CK_FloatingToFixedPoint
  | CK_FixedPointToFloating | CK_FixedPointCast | CK_FixedPointToIntegral
  | CK_IntegralToFixedPoint | CK_FixedPointToBoolean | CK_FloatingToIntegral
  | CK_FloatingToBoolean | CK_BooleanToSignedIntegral | CK_FloatingCast
  | CK_CPointerToObjCPointerCast | CK_BlockPointerToObjCPointerCast
  | CK_AnyPointerToBlockPointerCast | CK_ObjCObjectLValueCast | CK_FloatingRealToComplex
  | CK_FloatingComplexToReal | CK_FloatingComplexToBoolean | CK_FloatingComplexCast
  | CK_FloatingComplexToIntegralComplex | CK_IntegralRealToComplex
  | CK_IntegralComplexToReal | CK_IntegralComplexToBoolean | CK_IntegralComplexCast
  | CK_IntegralComplexToFloatingComplex | CK_ARCProduceObject | CK_ARCConsumeObject
  | CK_ARCReclaimReturnedObject | CK_ARCExtendBlockObject | CK_AtomicToNonAtomic
  | CK_NonAtomicToAtomic | CK_CopyAndAutoreleaseBlockObject | CK_BuiltinFnToFnPtr
  | CK_ZeroToOCLOpaqueType | CK_AddressSpaceConversion | CK_IntToOCLSampler

datatype UnaryOperatorKind =
    UO_PostInc | UO_PostDec | UO_PreInc | UO_PreDec | UO_AddrOf | UO_Deref | UO_Plus
  | UO_Minus | UO_Not | UO_LNot | UO_Real | UO_Imag | UO_Extension | UO_Coawait

datatype BinaryOperatorKind = BO_EQ | BO_NE | BO_Other

datatype ValueDecl = ValueDecl
  (vdId: nat) (vdType: Type) (isFunctionDecl: bool) (getPrimaryTemplate: "nat option")

datatype Expr = Expr (exprId: nat) (getType: Type) (stmtClass: ExprClass)
and ExprClass =
    DeclRefExpr ValueDecl "Type option list"
  | MemberExpr Expr ValueDecl
  | CXXMemberCallExpr Expr
  | CastExpr bool CastKind Expr
  | MaterializeTemporaryExpr Expr
  | CallExpr Expr
  | UnaryOperator UnaryOperatorKind Expr
  | CXXNewExpr bool
  | ArraySubscriptExpr Expr
  | CXXThisExpr
  | BinaryOperator BinaryOperatorKind Expr Expr
  | OtherExpr

fun IgnoreImpCasts :: "Expr \<Rightarrow> Expr" where
  "IgnoreImpCasts (Expr i T (CastExpr True CK Sub)) = IgnoreImpCasts Sub"
| "IgnoreImpCasts E = E"

definition hasPlaceholderType_BoundMember :: "Expr \<Rightarrow> bool" where
  "hasPlaceholderType_BoundMember E = (getType E = BuiltinType BK_BoundMember)"

text \<open>
  clang's \<^verbatim>\<open>Expr::findBoundMemberType\<close> on a member expression is the type of the member
  declaration; the other expressions of bound-member type (a call through a pointer to
  member, a pseudo-destructor) are outside the model and give an error.
\<close>

definition findBoundMemberType :: "Expr \<Rightarrow> error + Type" where
  "findBoundMemberType E =
     (case stmtClass E of
        MemberExpr Base MD \<Rightarrow> Inr (vdType MD)
      | _ \<Rightarrow> Inl NoBoundMemberType)"

definition exprType :: "Expr \<Rightarrow> error + Type" where
  "exprType E =
     (if hasPlaceholderType_BoundMember E then findBoundMemberType E else Inr (getType E))"

definition countPointersInExpr :: "nat \<Rightarrow> Expr \<Rightarrow> error + 32 word" where
  "countPointersInExpr fuel E = andThen (exprType E) (countPointersInType fuel)"

definition unspecifiedNullability :: "nat \<Rightarrow> Expr \<Rightarrow> error + TypeNullability" where
  "unspecifiedNullability fuel E =
     andThen (countPointersInExpr fuel E) (\<lambda>n. Inr (replicate (unat n) Unspecified))"

section \<open>Boolean values and the lattice\<close>

text \<open>
  The boolean formulas of the dataflow framework: atoms are numbered by the arena. A
  \<^verbatim>\<open>PointerTypeNullability\<close> is the pair of symbolic booleans of a declaration (its
  members \<^verbatim>\<open>Nonnull\<close> and \<^verbatim>\<open>Nullable\<close>, renamed apart from the nullability kinds).
\<close>

datatype BoolValue =
    AtomicBoolValue nat
  | BoolLiteral bool
  | NegationValue BoolValue
  | ConjunctionValue BoolValue BoolValue
  | DisjunctionValue BoolValue BoolValue
  | ImplicationValue BoolValue BoolValue
  | BiconditionalValue BoolValue BoolValue

record PointerTypeNullability =
  NonnullBool :: BoolValue
  NullableBool :: BoolValue

record PointerNullabilityLattice =
  ExprToNullability :: "Expr \<rightharpoonup> TypeNullability"
  DeclTopLevelNullability :: "nat \<rightharpoonup> PointerTypeNullability"

text \<open>
  Modelled from the spec: \<^verbatim>\<open>PointerNullabilityLattice::insertExprNullabilityIfAbsent\<close> is
  declared in \<^verbatim>\<open>pointer_nullability_lattice.h\<close>, which is not among the sources. The spec
  says that the map is insertion-once and that an entry is inserted if absent, so that
  earlier results stick: an expression that is mapped keeps its vector and the callback
  does not run; otherwise the callback runs and its vector is inserted, unless the
  callback itself has mapped the expression. The vector of the entry is returned.
\<close>

definition insertExprNullabilityIfAbsent ::
    "PointerNullabilityLattice \<Rightarrow> Expr
       \<Rightarrow> (PointerNullabilityLattice \<Rightarrow> error + TypeNullability \<times> PointerNullabilityLattice)
       \<Rightarrow> error + TypeNullability \<times> PointerNullabilityLattice" where
  "insertExprNullabilityIfAbsent L E GetNullability =
     (case ExprToNullability L E of
        Some V \<Rightarrow> Inr (V, L)
      | None \<Rightarrow>
          andThen (GetNullability L)
            (\<lambda>(V, L1).
               case ExprToNullability L1 E of
                 Some V1 \<Rightarrow> Inr (V1, L1)
               | None \<Rightarrow> Inr (V, L1\<lparr>ExprToNullability := (ExprToNullability L1)(E \<mapsto> V)\<rparr>)))"

section \<open>The non-flow-sensitive transfer (pointer_nullability_analysis.cc)\<close>

definition prepend :: "NullabilityKind \<Rightarrow> TypeNullability \<Rightarrow> TypeNullability" where
  "prepend Head Tail = Head # Tail"

text \<open>
  \<^verbatim>\<open>computeNullability\<close>: the callback computes the vector (and may insert the vectors of
  children into the lattice); a vector of the wrong size is replaced.
\<close>

definition computeNullability ::
    "nat \<Rightarrow> Expr \<Rightarrow> PointerNullabilityLattice
       \<Rightarrow> (PointerNullabilityLattice \<Rightarrow> error + TypeNullability \<times> PointerNullabilityLattice)
       \<Rightarrow> error + PointerNullabilityLattice" where
  "computeNullability fuel E L Compute =
     andThen
       (insertExprNullabilityIfAbsent L E
          (\<lambda>L0. andThen (Compute L0)
             (\<lambda>(Nullability, L1).
                andThen (countPointersInExpr fuel E)
                  (\<lambda>ExpectedSize.
                     Inr (if unat ExpectedSize \<noteq> length Nullability
                          then replicate (unat ExpectedSize) Unspecified
                          else Nullability, L1)))))
       (\<lambda>(V, L2). Inr L2)"

definition getNullabilityForChild ::
    "nat \<Rightarrow> Expr \<Rightarrow> PointerNullabilityLattice
       \<Rightarrow> error + TypeNullability \<times> PointerNullabilityLattice" where
  "getNullabilityForChild fuel E L =
     insertExprNullabilityIfAbsent L E
       (\<lambda>L0. andThen (unspecifiedNullability fuel E) (\<lambda>V. Inr (V, L0)))"

text \<open>
  The callback of \<^verbatim>\<open>substituteNullabilityAnnotationsInClassTemplate\<close>. \<^verbatim>\<open>ArrayRef::slice\<close>
  and \<^verbatim>\<open>operator[]\<close> read without a check in an optimized build: out of range they are
  an error of the model.
\<close>

fun addPointerCounts :: "nat \<Rightarrow> TemplateArgument list \<Rightarrow> 32 word \<Rightarrow> error + 32 word" where
  "addPointerCounts fuel [] PointerCount = Inr PointerCount"
| "addPointerCounts fuel (TA # TAs) PointerCount =
     andThen (countPointersInTemplateArgument fuel TA)
       (\<lambda>n. addPointerCounts fuel TAs (PointerCount + n))"

definition slice :: "'a list \<Rightarrow> nat \<Rightarrow> nat \<Rightarrow> error + 'a list" where
  "slice xs N M = (if N + M \<le> length xs then Inr (take M (drop N xs)) else Inl IndexOutOfRange)"

fun classTemplateParamNullability ::
    "nat \<Rightarrow> TypeNullability \<Rightarrow> Type \<Rightarrow> Type \<Rightarrow> error + TypeNullability option" where
  "classTemplateParamNullability fuel BaseNullabilityAnnotations BaseType
       (SubstTemplateTypeParmType AssociatedD ArgIndex PackIndex Part Replacement) =
     (case getAsCXXRecordDecl BaseType of
        None \<Rightarrow> Inr None
      | Some D \<Rightarrow>
          (case asSpecialization D of
             None \<Rightarrow> Inr None
           | Some Specialization \<Rightarrow>
               if declId D \<noteq> AssociatedD then Inr None
               else if Part then Inr None
               else if PackIndex \<noteq> None then Inr None
               else
                 andThen (countPointersInDeclContext fuel (getDeclContext D))
                   (\<lambda>DCCount.
                      andThen (addPointerCounts fuel
                                 (take ArgIndex (getTemplateArgs Specialization)) DCCount)
                        (\<lambda>PointerCount.
                           if ArgIndex < length (getTemplateArgs Specialization) then
                             andThen (countPointersInTemplateArgument fuel
                                        (getTemplateArgs Specialization ! ArgIndex))
                               (\<lambda>SliceSize.
                                  andThen (slice BaseNullabilityAnnotations
                                             (unat PointerCount) (unat SliceSize))
                                    (\<lambda>V. Inr (Some V)))
                           else Inl IndexOutOfRange))))"
| "classTemplateParamNullability fuel BaseNullabilityAnnotations BaseType T = Inr None"

definition substituteNullabilityAnnotationsInClassTemplate ::
    "nat \<Rightarrow> Type \<Rightarrow> TypeNullability \<Rightarrow> Type \<Rightarrow> error + TypeNullability" where
  "substituteNullabilityAnnotationsInClassTemplate fuel T BaseNullabilityAnnotations BaseType =
     getNullabilityAnnotationsFromType fuel T
       (Some (classTemplateParamNullability fuel BaseNullabilityAnnotations BaseType))"

text \<open>The callback of \<^verbatim>\<open>substituteNullabilityAnnotationsInFunctionTemplate\<close>.\<close>

fun functionTemplateParamNullability ::
    "nat \<Rightarrow> Expr \<Rightarrow> Type \<Rightarrow> error + TypeNullability option" where
  "functionTemplateParamNullability fuel Callee
       (SubstTemplateTypeParmType AssociatedD Index PackIndex Part Replacement) =
     (case stmtClass (IgnoreImpCasts Callee) of
        DeclRefExpr ReferencedDecl TemplateArguments \<Rightarrow>
          if \<not> isFunctionDecl ReferencedDecl then Inr None
          else if getPrimaryTemplate ReferencedDecl \<noteq> Some AssociatedD then Inr None
          else if Index \<ge> length TemplateArguments then Inr None
          else (case TemplateArguments ! Index of
                  None \<Rightarrow> Inr None
                | Some T \<Rightarrow>
                    andThen (getNullabilityAnnotationsFromType fuel T None)
                      (\<lambda>V. Inr (Some V)))
      | _ \<Rightarrow> Inr None)"
| "functionTemplateParamNullability fuel Callee T = Inr None"

definition substituteNullabilityAnnotationsInFunctionTemplate ::
    "nat \<Rightarrow> Type \<Rightarrow> Expr \<Rightarrow> error + TypeNullability" where
  "substituteNullabilityAnnotationsInFunctionTemplate fuel T Callee =
     getNullabilityAnnotationsFromType fuel T
       (Some (functionTemplateParamNullability fuel Callee))"

text \<open>
  Writing \<^verbatim>\<open>front()\<close> of an empty vector, and \<^verbatim>\<open>drop_front()\<close> or \<^verbatim>\<open>slice(1)\<close> of an empty
  vector, are errors of the model.
\<close>

definition setFront :: "NullabilityKind \<Rightarrow> TypeNullability \<Rightarrow> error + TypeNullability" where
  "setFront NK V = (case V of [] \<Rightarrow> Inl EmptyVector | Old # Rest \<Rightarrow> Inr (NK # Rest))"

definition dropFront :: "TypeNullability \<Rightarrow> error + TypeNullability" where
  "dropFront V = (case V of [] \<Rightarrow> Inl EmptyVector | Old # Rest \<Rightarrow> Inr Rest)"

text \<open>
  The loop of \<^verbatim>\<open>PreserveTopLevelPointers\<close>: \<^verbatim>\<open>V[I] = ArgNullability[I]\<close> as long as both
  canonical types are pointer types; the vectors are not checked for their length.
\<close>

fun preserveTopLevelPointersLoop ::
    "nat \<Rightarrow> Type \<Rightarrow> Type \<Rightarrow> TypeNullability \<Rightarrow> TypeNullability \<Rightarrow> error + TypeNullability" where
  "preserveTopLevelPointersLoop I (PointerType ArgPointee) (PointerType CastPointee)
       ArgNullability V =
     (if I < length V \<and> I < length ArgNullability then
        preserveTopLevelPointersLoop (I + 1) ArgPointee CastPointee ArgNullability
          (V[I := ArgNullability ! I])
      else Inl IndexOutOfRange)"
| "preserveTopLevelPointersLoop I ArgType CastType ArgNullability V = Inr V"

definition PreserveTopLevelPointers ::
    "nat \<Rightarrow> Expr \<Rightarrow> Expr \<Rightarrow> PointerNullabilityLattice
       \<Rightarrow> error + TypeNullability \<times> PointerNullabilityLattice" where
  "PreserveTopLevelPointers fuel CE SubExpr L =
     andThen (unspecifiedNullability fuel CE)
       (\<lambda>V. andThen (getNullabilityForChild fuel SubExpr L)
          (\<lambda>(ArgNullability, L1).
             andThen (preserveTopLevelPointersLoop 0 (getCanonicalType (getType SubExpr))
                        (getCanonicalType (getType CE)) ArgNullability V)
               (\<lambda>V'. Inr (V', L1))))"

definition unspecifiedFor ::
    "nat \<Rightarrow> Expr \<Rightarrow> PointerNullabilityLattice
       \<Rightarrow> error + TypeNullability \<times> PointerNullabilityLattice" where
  "unspecifiedFor fuel E L = andThen (unspecifiedNullability fuel E) (\<lambda>V. Inr (V, L))"

text \<open>
  The callback of \<^verbatim>\<open>transferNonFlowSensitiveCastExpr\<close>: the switch on the cast kind, for
  the cast expression \<^verbatim>\<open>CE\<close> with the sub-expression \<^verbatim>\<open>SubExpr\<close>.
\<close>

fun castNullability ::
    "CastKind \<Rightarrow> nat \<Rightarrow> Expr \<Rightarrow> Expr \<Rightarrow> PointerNullabilityLattice
       \<Rightarrow> error + TypeNullability \<times> PointerNullabilityLattice" where
  "castNullability CK_LValueBitCast fuel CE SubExpr L = PreserveTopLevelPointers fuel CE SubExpr L"
| "castNullability CK_BitCast fuel CE SubExpr L = PreserveTopLevelPointers fuel CE SubExpr L"
| "castNullability CK_LValueToRValueBitCast fuel CE SubExpr L =
     PreserveTopLevelPointers fuel CE SubExpr L"
| "castNullability CK_LValueToRValue fuel CE SubExpr L = getNullabilityForChild fuel SubExpr L"
| "castNullability CK_NoOp fuel CE SubExpr L = getNullabilityForChild fuel SubExpr L"
| "castNullability CK_AtomicToNonAtomic fuel CE SubExpr L = getNullabilityForChild fuel SubExpr L"
| "castNullability CK_NonAtomicToAtomic fuel CE SubExpr L = getNullabilityForChild fuel SubExpr L"
| "castNullability CK_AddressSpaceConversion fuel CE SubExpr L =
     getNullabilityForChild fuel SubExpr L"
| "castNullability CK_BaseToDerived fuel CE SubExpr L = PreserveTopLevelPointers fuel CE SubExpr L"
| "castNullability CK_DerivedToBase fuel CE SubExpr L = PreserveTopLevelPointers fuel CE SubExpr L"
| "castNullability CK_UncheckedDerivedToBase fuel CE SubExpr L =
     PreserveTopLevelPointers fuel CE SubExpr L"
| "castNullability CK_UserDefinedConversion fuel CE SubExpr L = unspecifiedFor fuel CE L"
| "castNullability CK_ConstructorConversion fuel CE SubExpr L = unspecifiedFor fuel CE L"
| "castNullability CK_Dynamic fuel CE SubExpr L =
     andThen (unspecifiedNullability fuel CE)
       (\<lambda>Result.
          if isPointerType (getType CE)
          then andThen (setFront Nullable Result) (\<lambda>V. Inr (V, L))
          else Inr (Result, L))"
| "castNullability CK_ToVoid fuel CE SubExpr L = Inr ([], L)"
| "castNullability CK_MemberPointerToBoolean fuel CE SubExpr L = Inr ([], L)"
| "castNullability CK_PointerToBoolean fuel CE SubExpr L = Inr ([], L)"
| "castNullability CK_PointerToIntegral fuel CE SubExpr L = Inr ([], L)"
| "castNullability CK_IntegralCast fuel CE SubExpr L = Inr ([], L)"
| "castNullability CK_IntegralToBoolean fuel CE SubExpr L = Inr ([], L)"
| "castNullability CK_IntegralToFloating fuel CE SubExpr L = Inr ([], L)"
| "castNullability CK_FloatingToFixedPoint fuel CE SubExpr L = Inr ([], L)"
| "castNullability CK_FixedPointToFloating fuel CE SubExpr L = Inr ([], L)"
| "castNullability CK_FixedPointCast fuel CE SubExpr L = Inr ([], L)"
| "castNullability CK_FixedPointToIntegral fuel CE SubExpr L = Inr ([], L)"
| "castNullability CK_IntegralToFixedPoint fuel CE SubExpr L = Inr ([], L)"
| "castNullability CK_FixedPointToBoolean fuel CE SubExpr L = Inr ([], L)"
| "castNullability CK_FloatingToIntegral fuel CE SubExpr L = Inr ([], L)"
| "castNullability CK_FloatingToBoolean fuel CE SubExpr L = Inr ([], L)"
| "castNullability CK_BooleanToSignedIntegral fuel CE SubExpr L = Inr ([], L)"
| "castNullability CK_FloatingCast fuel CE SubExpr L = Inr ([], L)"
| "castNullability CK_FloatingRealToComplex fuel CE SubExpr L = Inr ([], L)"
| "castNullability CK_FloatingComplexToReal fuel CE SubExpr L = Inr ([], L)"
| "castNullability CK_FloatingComplexToBoolean fuel CE SubExpr L = Inr ([], L)"
| "castNullability CK_FloatingComplexCast fuel CE SubExpr L = Inr ([], L)"
| "castNullability CK_FloatingComplexToIntegralComplex fuel CE SubExpr L = Inr ([], L)"
| "castNullability CK_IntegralRealToComplex fuel CE SubExpr L = Inr ([], L)"
| "castNullability CK_IntegralComplexToReal fuel CE SubExpr L = Inr ([], L)"
| "castNullability CK_IntegralComplexToBoolean fuel CE SubExpr L = Inr ([], L)"
| "castNullability CK_IntegralComplexCast fuel CE SubExpr L = Inr ([], L)"
| "castNullability CK_IntegralComplexToFloatingComplex fuel CE SubExpr L = Inr ([], L)"
| "castNullability CK_NullToPointer fuel CE SubExpr L =
     andThen (getNullabilityAnnotationsFromType fuel (getType CE) None)
       (\<lambda>Nullability.
          if \<not> isNullPtrType (getType CE)
          then andThen (setFront Nullable Nullability) (\<lambda>V. Inr (V, L))
          else Inr (Nullability, L))"
| "castNullability CK_IntegralToPointer fuel CE SubExpr L = unspecifiedFor fuel CE L"
| "castNullability CK_ArrayToPointerDecay fuel CE SubExpr L =
     andThen (getNullabilityForChild fuel SubExpr L) (\<lambda>(V, L1). Inr (prepend NonNull V, L1))"
| "castNullability CK_FunctionToPointerDecay fuel CE SubExpr L =
     andThen (getNullabilityForChild fuel SubExpr L) (\<lambda>(V, L1). Inr (prepend NonNull V, L1))"
| "castNullability CK_BuiltinFnToFnPtr fuel CE SubExpr L = getNullabilityForChild fuel SubExpr L"
| "castNullability CK_BaseToDerivedMemberPointer fuel CE SubExpr L = unspecifiedFor fuel CE L"
| "castNullability CK_DerivedToBaseMemberPointer fuel CE SubExpr L = unspecifiedFor fuel CE L"
| "castNullability CK_NullToMemberPointer fuel CE SubExpr L = unspecifiedFor fuel CE L"
| "castNullability CK_ReinterpretMemberPointer fuel CE SubExpr L = unspecifiedFor fuel CE L"
| "castNullability CK_ToUnion fuel CE SubExpr L = unspecifiedFor fuel CE L"
| "castNullability CK_CPointerToObjCPointerCast fuel CE SubExpr L = unspecifiedFor fuel CE L"
| "castNullability CK_ObjCObjectLValueCast fuel CE SubExpr L = unspecifiedFor fuel CE L"
| "castNullability CK_MatrixCast fuel CE SubExpr L = unspecifiedFor fuel CE L"
| "castNullability CK_VectorSplat fuel CE SubExpr L = unspecifiedFor fuel CE L"
| "castNullability CK_BlockPointerToObjCPointerCast fuel CE SubExpr L = unspecifiedFor fuel CE L"
| "castNullability CK_AnyPointerToBlockPointerCast fuel CE SubExpr L = unspecifiedFor fuel CE L"
| "castNullability CK_ARCProduceObject fuel CE SubExpr L = unspecifiedFor fuel CE L"
| "castNullability CK_ARCConsumeObject fuel CE SubExpr L = unspecifiedFor fuel CE L"
| "castNullability CK_ARCReclaimReturnedObject fuel CE SubExpr L = unspecifiedFor fuel CE L"
| "castNullability CK_ARCExtendBlockObject fuel CE SubExpr L = unspecifiedFor fuel CE L"
| "castNullability CK_CopyAndAutoreleaseBlockObject fuel CE SubExpr L = unspecifiedFor fuel CE L"
| "castNullability CK_ZeroToOCLOpaqueType fuel CE SubExpr L = unspecifiedFor fuel CE L"
| "castNullability CK_IntToOCLSampler fuel CE SubExpr L = unspecifiedFor fuel CE L"
| "castNullability CK_Dependent fuel CE SubExpr L = Inl DependentCast"

text \<open>The callback of \<^verbatim>\<open>transferNonFlowSensitiveUnaryOperator\<close>.\<close>

fun unaryOperatorNullability ::
    "UnaryOperatorKind \<Rightarrow> nat \<Rightarrow> Expr \<Rightarrow> Expr \<Rightarrow> PointerNullabilityLattice
       \<Rightarrow> error + TypeNullability \<times> PointerNullabilityLattice" where
  "unaryOperatorNullability UO_AddrOf fuel UO SubExpr L =
     andThen (getNullabilityForChild fuel SubExpr L) (\<lambda>(V, L1). Inr (prepend NonNull V, L1))"
| "unaryOperatorNullability UO_Deref fuel UO SubExpr L =
     andThen (getNullabilityForChild fuel SubExpr L)
       (\<lambda>(V, L1). andThen (dropFront V) (\<lambda>V'. Inr (V', L1)))"
| "unaryOperatorNullability UO_PostInc fuel UO SubExpr L = getNullabilityForChild fuel SubExpr L"
| "unaryOperatorNullability UO_PostDec fuel UO SubExpr L = getNullabilityForChild fuel SubExpr L"
| "unaryOperatorNullability UO_PreInc fuel UO SubExpr L = getNullabilityForChild fuel SubExpr L"
| "unaryOperatorNullability UO_PreDec fuel UO SubExpr L = getNullabilityForChild fuel SubExpr L"
| "unaryOperatorNullability UO_Plus fuel UO SubExpr L = getNullabilityForChild fuel SubExpr L"
| "unaryOperatorNullability UO_Minus fuel UO SubExpr L = getNullabilityForChild fuel SubExpr L"
| "unaryOperatorNullability UO_Not fuel UO SubExpr L = getNullabilityForChild fuel SubExpr L"
| "unaryOperatorNullability UO_LNot fuel UO SubExpr L = getNullabilityForChild fuel SubExpr L"
| "unaryOperatorNullability UO_Real fuel UO SubExpr L = getNullabilityForChild fuel SubExpr L"
| "unaryOperatorNullability UO_Imag fuel UO SubExpr L = getNullabilityForChild fuel SubExpr L"
| "unaryOperatorNullability UO_Extension fuel UO SubExpr L = getNullabilityForChild fuel SubExpr L"
| "unaryOperatorNullability UO_Coawait fuel UO SubExpr L = unspecifiedFor fuel UO L"

text \<open>
  The callbacks of the other rules, and the transfer itself: the match switch of
  \<^verbatim>\<open>buildNonFlowSensitiveTransferer\<close> takes the first case that matches, and a member call
  expression is matched before a call expression. An expression of any other class is
  left alone.
\<close>

definition memberExprNullability ::
    "nat \<Rightarrow> Expr \<Rightarrow> Expr \<Rightarrow> ValueDecl \<Rightarrow> PointerNullabilityLattice
       \<Rightarrow> error + TypeNullability \<times> PointerNullabilityLattice" where
  "memberExprNullability fuel ME Base MemberDecl L =
     andThen (getNullabilityForChild fuel Base L)
       (\<lambda>(BaseNullability, L1).
          andThen
            (substituteNullabilityAnnotationsInClassTemplate fuel
               (if hasPlaceholderType_BoundMember ME then vdType MemberDecl else getType ME)
               BaseNullability (getType Base))
            (\<lambda>V. Inr (V, L1)))"

definition memberCallExprNullability ::
    "nat \<Rightarrow> Expr \<Rightarrow> Expr \<Rightarrow> PointerNullabilityLattice
       \<Rightarrow> error + TypeNullability \<times> PointerNullabilityLattice" where
  "memberCallExprNullability fuel MCE Callee L =
     andThen (getNullabilityForChild fuel Callee L)
       (\<lambda>(V, L1).
          andThen (countPointersInExpr fuel MCE) (\<lambda>n. Inr (take (unat n) V, L1)))"

definition annotationsFor ::
    "nat \<Rightarrow> Expr \<Rightarrow> PointerNullabilityLattice
       \<Rightarrow> error + TypeNullability \<times> PointerNullabilityLattice" where
  "annotationsFor fuel E L =
     andThen (getNullabilityAnnotationsFromType fuel (getType E) None) (\<lambda>V. Inr (V, L))"

definition arraySubscriptNullability ::
    "nat \<Rightarrow> Expr \<Rightarrow> PointerNullabilityLattice
       \<Rightarrow> error + TypeNullability \<times> PointerNullabilityLattice" where
  "arraySubscriptNullability fuel Base L =
     andThen (getNullabilityForChild fuel Base L)
       (\<lambda>(BaseNullability, L1).
          if isPointerType (getType Base)
          then andThen (dropFront BaseNullability) (\<lambda>V. Inr (V, L1))
          else Inl BaseNotPointer)"

fun transferNonFlowSensitive ::
    "nat \<Rightarrow> Expr \<Rightarrow> PointerNullabilityLattice \<Rightarrow> error + PointerNullabilityLattice" where
  "transferNonFlowSensitive fuel (Expr i T (DeclRefExpr D TAs)) L =
     computeNullability fuel (Expr i T (DeclRefExpr D TAs)) L
       (annotationsFor fuel (Expr i T (DeclRefExpr D TAs)))"
| "transferNonFlowSensitive fuel (Expr i T (MemberExpr Base MD)) L =
     computeNullability fuel (Expr i T (MemberExpr Base MD)) L
       (memberExprNullability fuel (Expr i T (MemberExpr Base MD)) Base MD)"
| "transferNonFlowSensitive fuel (Expr i T (CXXMemberCallExpr Callee)) L =
     computeNullability fuel (Expr i T (CXXMemberCallExpr Callee)) L
       (memberCallExprNullability fuel (Expr i T (CXXMemberCallExpr Callee)) Callee)"
| "transferNonFlowSensitive fuel (Expr i T (CastExpr Imp CK SubExpr)) L =
     computeNullability fuel (Expr i T (CastExpr Imp CK SubExpr)) L
       (castNullability CK fuel (Expr i T (CastExpr Imp CK SubExpr)) SubExpr)"
| "transferNonFlowSensitive fuel (Expr i T (MaterializeTemporaryExpr SubExpr)) L =
     computeNullability fuel (Expr i T (MaterializeTemporaryExpr SubExpr)) L
       (getNullabilityForChild fuel SubExpr)"
| "transferNonFlowSensitive fuel (Expr i T (CallExpr Callee)) L =
     computeNullability fuel (Expr i T (CallExpr Callee)) L
       (\<lambda>L0. andThen (substituteNullabilityAnnotationsInFunctionTemplate fuel T Callee)
                (\<lambda>V. Inr (V, L0)))"
| "transferNonFlowSensitive fuel (Expr i T (UnaryOperator Opc SubExpr)) L =
     computeNullability fuel (Expr i T (UnaryOperator Opc SubExpr)) L
       (unaryOperatorNullability Opc fuel (Expr i T (UnaryOperator Opc SubExpr)) SubExpr)"
| "transferNonFlowSensitive fuel (Expr i T (CXXNewExpr NullCheck)) L =
     computeNullability fuel (Expr i T (CXXNewExpr NullCheck)) L
       (\<lambda>L0. andThen (getNullabilityAnnotationsFromType fuel T None)
                (\<lambda>result. andThen (setFront (if NullCheck then Nullable else NonNull) result)
                   (\<lambda>V. Inr (V, L0))))"
| "transferNonFlowSensitive fuel (Expr i T (ArraySubscriptExpr Base)) L =
     computeNullability fuel (Expr i T (ArraySubscriptExpr Base)) L
       (arraySubscriptNullability fuel Base)"
| "transferNonFlowSensitive fuel (Expr i T CXXThisExpr) L =
     computeNullability fuel (Expr i T CXXThisExpr) L
       (\<lambda>L0. andThen (getNullabilityAnnotationsFromType fuel T None)
                (\<lambda>result. andThen (setFront NonNull result) (\<lambda>V. Inr (V, L0))))"
| "transferNonFlowSensitive fuel (Expr i T (BinaryOperator Opc LHS RHS)) L = Inr L"
| "transferNonFlowSensitive fuel (Expr i T OtherExpr) L = Inr L"

text \<open>The transfer over the statements of a block, in the order the CFG gives them.\<close>

fun transferAllNonFlowSensitive ::
    "nat \<Rightarrow> Expr list \<Rightarrow> PointerNullabilityLattice \<Rightarrow> error + PointerNullabilityLattice" where
  "transferAllNonFlowSensitive fuel [] L = Inr L"
| "transferAllNonFlowSensitive fuel (E # Es) L =
     andThen (transferNonFlowSensitive fuel E L) (transferAllNonFlowSensitive fuel Es)"

section \<open>The environment of the dataflow framework\<close>

text \<open>
  Modelled from the spec: the \<^verbatim>\<open>Environment\<close> and the arena belong to clang's dataflow
  framework, which the analysis uses through the interface the spec lists (creating
  boolean values, the value of an expression, adding to the flow condition and asking
  whether the flow condition implies a formula). The flow condition is the list of the
  formulas added so far; \<^verbatim>\<open>flowConditionImplies\<close> is what the solver decides: the truth of
  the formula under every valuation of the atoms that satisfies the flow condition.
  A pointer value is a mutable object that several expressions can evaluate to: it is
  identified by a number, and \<^verbatim>\<open>NullState\<close> holds the pair of properties
  \<^verbatim>\<open>(is_known, is_null)\<close> of the pointer values that have been initialized (both or
  neither, as the spec's invariant says). \<^verbatim>\<open>NextAtom\<close> is the arena's next fresh atom.
\<close>

datatype Value = PointerValue nat | BoolVal BoolValue | OtherValue

record Environment =
  FlowCondition :: "BoolValue list"
  ExprToValue :: "Expr \<rightharpoonup> Value"
  NullState :: "nat \<rightharpoonup> BoolValue \<times> BoolValue"
  NextAtom :: nat

fun evalBool :: "(nat \<Rightarrow> bool) \<Rightarrow> BoolValue \<Rightarrow> bool" where
  "evalBool v (AtomicBoolValue a) = v a"
| "evalBool v (BoolLiteral b) = b"
| "evalBool v (NegationValue A) = (\<not> evalBool v A)"
| "evalBool v (ConjunctionValue A B) = (evalBool v A \<and> evalBool v B)"
| "evalBool v (DisjunctionValue A B) = (evalBool v A \<or> evalBool v B)"
| "evalBool v (ImplicationValue A B) = (evalBool v A \<longrightarrow> evalBool v B)"
| "evalBool v (BiconditionalValue A B) = (evalBool v A = evalBool v B)"


definition addToFlowCondition :: "BoolValue \<Rightarrow> Environment \<Rightarrow> Environment" where
  "addToFlowCondition B Env = Env\<lparr>FlowCondition := FlowCondition Env @ [B]\<rparr>"

definition makeAtomicBoolValue :: "Environment \<Rightarrow> BoolValue \<times> Environment" where
  "makeAtomicBoolValue Env = (AtomicBoolValue (NextAtom Env), Env\<lparr>NextAtom := Suc (NextAtom Env)\<rparr>)"

definition makeNot :: "BoolValue \<Rightarrow> BoolValue" where
  "makeNot A = NegationValue A"

definition makeAnd :: "BoolValue \<Rightarrow> BoolValue \<Rightarrow> BoolValue" where
  "makeAnd A B = ConjunctionValue A B"


definition makeImplication :: "BoolValue \<Rightarrow> BoolValue \<Rightarrow> BoolValue" where
  "makeImplication A B = ImplicationValue A B"

definition makeIff :: "BoolValue \<Rightarrow> BoolValue \<Rightarrow> BoolValue" where
  "makeIff A B = BiconditionalValue A B"

text \<open>
  Modelled from the spec: the helpers of \<^verbatim>\<open>pointer_nullability.h\<close> are not among the
  sources. \<^verbatim>\<open>getPointerValueFromExpr\<close> is the pointer value the expression evaluates to, if
  any. \<^verbatim>\<open>initPointerNullState\<close> initializes a pointer value: it gives the two properties
  to a pointer value that has none, a fresh atom standing for a constraint that is not
  passed, and it leaves an initialized pointer value as it is. (The spec speaks of
  initializing throughout; with a second initialization that replaced the first, its
  scenario 6, the test \<^verbatim>\<open>AssignNullabilityVariable\<close> of the repository, would not hold,
  for the transfer visits the same pointer value again where no override applies.)
  \<^verbatim>\<open>getPointerNullState\<close> reads the two properties; on a pointer value that has none the
  source dereferences a null property. The four initializers are as the spec gives them:
  null is known and null, not-null is known and not null, nullable is known, unknown
  constrains nothing.
\<close>

definition getPointerValueFromExpr :: "Expr \<Rightarrow> Environment \<Rightarrow> nat option" where
  "getPointerValueFromExpr E Env =
     (case ExprToValue Env E of Some (PointerValue p) \<Rightarrow> Some p | _ \<Rightarrow> None)"

definition hasPointerNullState :: "nat \<Rightarrow> Environment \<Rightarrow> bool" where
  "hasPointerNullState PointerVal Env = (NullState Env PointerVal \<noteq> None)"

definition initPointerNullState ::
    "nat \<Rightarrow> Environment \<Rightarrow> BoolValue option \<Rightarrow> BoolValue option \<Rightarrow> Environment" where
  "initPointerNullState PointerVal Env KnownConstraint NullConstraint =
     (case NullState Env PointerVal of
        Some S \<Rightarrow> Env
      | None \<Rightarrow>
          (let (Known, Env1) =
                 (case KnownConstraint of
                    Some K \<Rightarrow> (K, Env) | None \<Rightarrow> makeAtomicBoolValue Env);
               (Null, Env2) =
                 (case NullConstraint of
                    Some N \<Rightarrow> (N, Env1) | None \<Rightarrow> makeAtomicBoolValue Env1)
           in Env2\<lparr>NullState := (NullState Env2)(PointerVal \<mapsto> (Known, Null))\<rparr>))"

definition getPointerNullState :: "nat \<Rightarrow> Environment \<Rightarrow> error + BoolValue \<times> BoolValue" where
  "getPointerNullState PointerVal Env =
     (case NullState Env PointerVal of None \<Rightarrow> Inl NoValue | Some S \<Rightarrow> Inr S)"


definition initNullPointer :: "nat \<Rightarrow> Environment \<Rightarrow> Environment" where
  "initNullPointer PointerVal Env =
     initPointerNullState PointerVal Env (Some (BoolLiteral True)) (Some (BoolLiteral True))"



section \<open>The flow-sensitive transfer (pointer_nullability_analysis.cc)\<close>


record TransferState =
  Lattice :: PointerNullabilityLattice
  Env :: Environment





text \<open>
  \<^verbatim>\<open>transferFlowSensitiveNullCheckComparison\<close>: the comparison must have a boolean value
  (the source casts it) and its opcode must be \<^verbatim>\<open>==\<close> or \<^verbatim>\<open>!=\<close> (the source checks it).
\<close>

definition transferFlowSensitiveNullCheckComparison ::
    "Expr \<Rightarrow> TransferState \<Rightarrow> error + TransferState" where
  "transferFlowSensitiveNullCheckComparison BinaryOp State =
     (case stmtClass BinaryOp of
        BinaryOperator Opcode LHSExpr RHSExpr \<Rightarrow>
          (case ExprToValue (Env State) BinaryOp of
             Some (BoolVal PointerComparison) \<Rightarrow>
               if Opcode \<noteq> BO_EQ \<and> Opcode \<noteq> BO_NE then Inl UnexpectedOpcode
               else
                 (let PointerEQ = (if Opcode = BO_EQ then PointerComparison
                                   else makeNot PointerComparison);
                      PointerNE = (if Opcode = BO_EQ then makeNot PointerComparison
                                   else PointerComparison)
                  in case (getPointerValueFromExpr LHSExpr (Env State),
                           getPointerValueFromExpr RHSExpr (Env State)) of
                       (Some LHS, Some RHS) \<Rightarrow>
                         andThen (getPointerNullState LHS (Env State))
                           (\<lambda>(LHSKnown, LHSNull).
                              andThen (getPointerNullState RHS (Env State))
                                (\<lambda>(RHSKnown, RHSNull).
                                   (let LHSNotNull = makeNot LHSNull;
                                        RHSNotNull = makeNot RHSNull
                                    in Inr (State\<lparr>Env :=
                                         addToFlowCondition
                                           (makeImplication (makeAnd LHSNotNull RHSNull)
                                              PointerNE)
                                           (addToFlowCondition
                                              (makeImplication (makeAnd LHSNull RHSNotNull)
                                                 PointerNE)
                                              (addToFlowCondition
                                                 (makeImplication (makeAnd LHSNull RHSNull)
                                                    PointerEQ)
                                                 (Env State)))\<rparr>))))
                     | _ \<Rightarrow> Inr State)
           | _ \<Rightarrow> Inl NoValue)
      | _ \<Rightarrow> Inl NoValue)"




section \<open>Predicates of the properties\<close>

text \<open>
  Two walkers are related when they have the same pending nullability and the state of
  the first is what its \<^verbatim>\<open>report\<close> makes of the annotations the second has collected.
\<close>

definition sim :: "'s Impl \<Rightarrow> 's \<Rightarrow> 's Walker \<Rightarrow> TypeNullability Walker \<Rightarrow> bool" where
  "sim impl s0 W Wt \<longleftrightarrow>
     PendingNullability W = PendingNullability Wt \<and>
     derived W = fold (report impl) (derived Wt) s0"

text \<open>
  The types built from raw pointers only: a builtin type or a class that is neither a
  template specialization nor nested in a class, under pointers that carry at most one
  nullability attribute each, written directly on the pointer type.
\<close>

fun rawPointerType :: "Type \<Rightarrow> bool" where
  "rawPointerType (BuiltinType K) = True"
| "rawPointerType (RecordType D) = (getDeclContext D = None \<and> asSpecialization D = None)"
| "rawPointerType (PointerType T) = rawPointerType T"
| "rawPointerType (AttributedType (Some NK) (PointerType T)) = rawPointerType T"
| "rawPointerType T = False"

text \<open>
  The length invariant of the lattice, and the callbacks that keep it.
\<close>

definition lengthInvariant :: "nat \<Rightarrow> PointerNullabilityLattice \<Rightarrow> bool" where
  "lengthInvariant fuel L \<longleftrightarrow>
     (\<forall>E V. ExprToNullability L E = Some V \<longrightarrow>
        (\<exists>n. countPointersInExpr fuel E = Inr n \<and> length V = unat n))"

definition preservesLength ::
    "nat \<Rightarrow> (PointerNullabilityLattice \<Rightarrow> error + TypeNullability \<times> PointerNullabilityLattice)
       \<Rightarrow> bool" where
  "preservesLength fuel f \<longleftrightarrow>
     (\<forall>L V L1. lengthInvariant fuel L \<longrightarrow> f L = Inr (V, L1) \<longrightarrow> lengthInvariant fuel L1)"

text \<open>
  The canonical types on which the rebuilder and the walker are in step: no class
  nested in a class, and no argument pack among the arguments of a specialization.
  \<^verbatim>\<open>roundTrip n T\<close> says that \<^verbatim>\<open>T\<close> has \<^verbatim>\<open>n\<close> pointer positions, that the rebuilder
  takes \<^verbatim>\<open>n\<close> entries from the front of a vector, and that the walk of the rebuilt
  type gives these entries back.
\<close>

fun inSync :: "Type \<Rightarrow> bool"
and inSyncArg :: "TemplateArgument \<Rightarrow> bool"
where
  "inSync (BuiltinType K) = True"
| "inSync (PointerType T) = inSync T"
| "inSync (LValueReferenceType T) = inSync T"
| "inSync (RValueReferenceType T) = inSync T"
| "inSync (ConstantArrayType T n) = inSync T"
| "inSync (IncompleteArrayType T) = inSync T"
| "inSync (VariableArrayType T) = inSync T"
| "inSync (FunctionProtoType R Ps) = (inSync R \<and> list_all inSync Ps)"
| "inSync (MemberPointerType T) = (getCanonicalType T = T)"
| "inSync (RecordType (CXXRecordDecl i DC None)) = (DC = None)"
| "inSync (RecordType (CXXRecordDecl i DC (Some (ClassTemplateSpecializationDecl As CTD Part)))) =
     (DC = None \<and> list_all inSyncArg As)"
| "inSync T = False"
| "inSyncArg (TA_Type T) = inSync T"
| "inSyncArg (TA_Pack Elts) = False"
| "inSyncArg TA_Other = True"

definition roundTrip :: "nat \<Rightarrow> Type \<Rightarrow> bool" where
  "roundTrip n T \<longleftrightarrow>
     (\<forall>fuel Cur s. Visit (annotationWalker None) fuel Cur T (Walker None s)
        = Inr (Walker None (s @ replicate n Unspecified))) \<and>
     (\<forall>V. n \<le> length V \<longrightarrow>
        (\<exists>T'. Rebuilder_Visit T V = Inr (T', drop n V) \<and> getCanonicalType T' = T \<and>
           (\<forall>fuel Cur s. Visit (annotationWalker None) fuel Cur T' (Walker None s)
              = Inr (Walker None (s @ take n V)))))"

definition roundTripTypes :: "nat \<Rightarrow> Type list \<Rightarrow> bool" where
  "roundTripTypes n Ts \<longleftrightarrow>
     (\<forall>fuel Cur s. VisitTypes (annotationWalker None) fuel Cur Ts (Walker None s)
        = Inr (Walker None (s @ replicate n Unspecified))) \<and>
     (\<forall>V. n \<le> length V \<longrightarrow>
        (\<exists>Ts'. Rebuilder_VisitTypes Ts V = Inr (Ts', drop n V) \<and>
           map getCanonicalType Ts' = Ts \<and>
           (\<forall>fuel Cur s. VisitTypes (annotationWalker None) fuel Cur Ts' (Walker None s)
              = Inr (Walker None (s @ take n V)))))"

definition roundTripArg :: "nat \<Rightarrow> TemplateArgument \<Rightarrow> bool" where
  "roundTripArg n TA \<longleftrightarrow>
     (\<forall>fuel Cur s. VisitTemplateArgument (annotationWalker None) fuel Cur TA (Walker None s)
        = Inr (Walker None (s @ replicate n Unspecified))) \<and>
     (\<forall>V. n \<le> length V \<longrightarrow>
        (\<exists>TA'. Rebuilder_VisitTemplateArgument TA V = Inr (TA', drop n V) \<and>
           (\<forall>fuel Cur s. VisitTemplateArgument (annotationWalker None) fuel Cur TA' (Walker None s)
              = Inr (Walker None (s @ take n V)))))"

definition roundTripArgs :: "nat \<Rightarrow> TemplateArgument list \<Rightarrow> bool" where
  "roundTripArgs n TAs \<longleftrightarrow>
     (\<forall>fuel Cur s. VisitTemplateArguments (annotationWalker None) fuel Cur TAs (Walker None s)
        = Inr (Walker None (s @ replicate n Unspecified))) \<and>
     (\<forall>V. n \<le> length V \<longrightarrow>
        (\<exists>TAs'. Rebuilder_VisitTemplateArguments TAs V = Inr (TAs', drop n V) \<and>
           length TAs' = length TAs \<and>
           (\<forall>fuel Cur s. VisitTemplateArguments (annotationWalker None) fuel Cur TAs' (Walker None s)
              = Inr (Walker None (s @ take n V)))))"

text \<open>
  The types in which no substituted template parameter occurs, neither in the type nor
  in the declarations and template arguments the walker reaches from it; and the results
  of a walk that leave no nullability pending: a walker with an empty slot, or a failure
  other than that of the check on the slot.
\<close>

fun noSubst :: "Type \<Rightarrow> bool"
and noSubstArg :: "TemplateArgument \<Rightarrow> bool"
and noSubstDecl :: "RecordDecl \<Rightarrow> bool"
and noSubstSpec :: "ClassTemplateSpecializationDecl \<Rightarrow> bool"
where
  "noSubst (BuiltinType K) = True"
| "noSubst (PointerType T) = noSubst T"
| "noSubst (LValueReferenceType T) = noSubst T"
| "noSubst (RValueReferenceType T) = noSubst T"
| "noSubst (ConstantArrayType T n) = noSubst T"
| "noSubst (IncompleteArrayType T) = noSubst T"
| "noSubst (VariableArrayType T) = noSubst T"
| "noSubst (FunctionProtoType R Ps) = (noSubst R \<and> (\<forall>P \<in> set Ps. noSubst P))"
| "noSubst (MemberPointerType T) = True"
| "noSubst (RecordType D) = noSubstDecl D"
| "noSubst (AttributedType NK T) = noSubst T"
| "noSubst (TypedefType T) = noSubst T"
| "noSubst (ElaboratedType NNS T) = noSubst T"
| "noSubst (TemplateSpecializationType TD As T) = ((\<forall>TA \<in> set As. noSubstArg TA) \<and> noSubst T)"
| "noSubst (SubstTemplateTypeParmType D I P Part T) = False"
| "noSubstArg (TA_Type T) = noSubst T"
| "noSubstArg (TA_Pack Elts) = (\<forall>TA \<in> set Elts. noSubstArg TA)"
| "noSubstArg TA_Other = True"
| "noSubstDecl (CXXRecordDecl i DC Spec) =
     ((\<forall>D \<in> set_option DC. noSubstDecl D) \<and> (\<forall>CTSD \<in> set_option Spec. noSubstSpec CTSD))"
| "noSubstSpec (ClassTemplateSpecializationDecl As CTD Part) = (\<forall>TA \<in> set As. noSubstArg TA)"

definition consumed :: "error + 's Walker \<Rightarrow> bool" where
  "consumed r = (case r of Inl e \<Rightarrow> e \<noteq> BrokenTypeSugar | Inr W \<Rightarrow> PendingNullability W = None)"








section \<open>Example programs\<close>

text \<open>
  \<^verbatim>\<open>int *\<close>, the empty lattice, and the implicit cast of \<^verbatim>\<open>nullptr\<close> in
  \<^verbatim>\<open>int * _Nonnull * pp = nullptr;\<close>.
\<close>

definition intPointer :: Type where
  "intPointer = PointerType (BuiltinType BK_Int)"

text \<open>
  The alias template \<^verbatim>\<open>template <class T> using Nullable = T;\<close>, declared with the
  attribute \<^verbatim>\<open>clang::annotate("Nullable")\<close>.
\<close>

definition nullableAlias :: TemplateDecl where
  "nullableAlias = TemplateDecl 80 True True (Some ''Nullable'')"

definition emptyLattice :: PointerNullabilityLattice where
  "emptyLattice = \<lparr>ExprToNullability = Map.empty, DeclTopLevelNullability = Map.empty\<rparr>"

definition nullLiteral :: Expr where
  "nullLiteral = Expr 1 (BuiltinType BK_NullPtr) OtherExpr"

definition nullCast :: Expr where
  "nullCast = Expr 2 (PointerType (AttributedType (Some NonNull) intPointer))
     (CastExpr True CK_NullToPointer nullLiteral)"

text \<open>
  \<^verbatim>\<open>template <class F, class S> struct P { S * _Nullable second(); };\<close> with
  \<^verbatim>\<open>P<int *, int * _Nonnull> x;\<close> and the statements of \<^verbatim>\<open>x.second()\<close>: the reference to
  \<^verbatim>\<open>x\<close>, the member expression of bound-member type and the member call.
\<close>

definition pairDecl :: RecordDecl where
  "pairDecl = CXXRecordDecl 1 None
     (Some (ClassTemplateSpecializationDecl [TA_Type intPointer, TA_Type intPointer]
        (ClassTemplateDecl 10 None) False))"

definition pairType :: Type where
  "pairType = ElaboratedType []
     (TemplateSpecializationType (Some (TemplateDecl 10 False True None))
        [TA_Type intPointer, TA_Type (AttributedType (Some NonNull) intPointer)]
        (RecordType pairDecl))"

definition secondResultType :: Type where
  "secondResultType = AttributedType (Some Nullable)
     (PointerType (SubstTemplateTypeParmType 1 1 None False intPointer))"

definition secondDecl :: ValueDecl where
  "secondDecl = ValueDecl 20 (FunctionProtoType secondResultType []) True None"

definition xRef :: Expr where
  "xRef = Expr 1 pairType (DeclRefExpr (ValueDecl 21 pairType False None) [])"

definition xSecond :: Expr where
  "xSecond = Expr 2 (BuiltinType BK_BoundMember) (MemberExpr xRef secondDecl)"

definition xSecondCall :: Expr where
  "xSecondCall = Expr 3 secondResultType (CXXMemberCallExpr xSecond)"

text \<open>
  \<^verbatim>\<open>int *target(int *p) { int *q = p; return q; }\<close> with the nullability of \<^verbatim>\<open>p\<close> bound
  to variables: the pointer expressions of the body in the order of the CFG. The
  framework copies the pointer value of \<^verbatim>\<open>p\<close> into \<^verbatim>\<open>q\<close> and into the return value, so
  the four expressions evaluate to the same pointer value, numbered 0.
\<close>

definition pDecl :: ValueDecl where
  "pDecl = ValueDecl 30 intPointer False None"

definition qDecl :: ValueDecl where
  "qDecl = ValueDecl 31 intPointer False None"

definition pRef :: Expr where
  "pRef = Expr 10 intPointer (DeclRefExpr pDecl [])"

definition pValue :: Expr where
  "pValue = Expr 11 intPointer (CastExpr True CK_LValueToRValue pRef)"

definition qRef :: Expr where
  "qRef = Expr 12 intPointer (DeclRefExpr qDecl [])"

definition qValue :: Expr where
  "qValue = Expr 13 intPointer (CastExpr True CK_LValueToRValue qRef)"



text \<open>
  A load of an atomic pointer: the type of the operand is a non-sugar type the walker
  does not look into, so the vector of the operand is empty while the cast has one
  pointer position.
\<close>

definition atomicPointer :: Expr where
  "atomicPointer = Expr 50 (MemberPointerType intPointer) OtherExpr"

definition atomicLoad :: Expr where
  "atomicLoad = Expr 51 intPointer (CastExpr True CK_AtomicToNonAtomic atomicPointer)"

text \<open>
  \<^verbatim>\<open>template <class T> struct S { T _Nullable p; struct Inner {}; };\<close> with
  \<^verbatim>\<open>S<int *> s;\<close>: the member access \<^verbatim>\<open>s.p\<close>, the nested class \<^verbatim>\<open>S<int *>::Inner\<close>, and
  a specialization \<^verbatim>\<open>Tuple<int *>\<close> of a variadic class template.
\<close>

definition boxDecl :: RecordDecl where
  "boxDecl = CXXRecordDecl 60 None
     (Some (ClassTemplateSpecializationDecl [TA_Type intPointer] (ClassTemplateDecl 61 None)
        False))"

definition boxType :: Type where
  "boxType = TemplateSpecializationType (Some (TemplateDecl 61 False True None))
     [TA_Type intPointer] (RecordType boxDecl)"

definition boxMemberType :: Type where
  "boxMemberType = AttributedType (Some Nullable)
     (SubstTemplateTypeParmType 60 0 None False intPointer)"

definition boxRef :: Expr where
  "boxRef = Expr 62 boxType (DeclRefExpr (ValueDecl 63 boxType False None) [])"

definition boxMember :: Expr where
  "boxMember = Expr 64 boxMemberType (MemberExpr boxRef (ValueDecl 65 boxMemberType False None))"

definition innerDecl :: RecordDecl where
  "innerDecl = CXXRecordDecl 66 (Some boxDecl) None"

definition tupleDecl :: RecordDecl where
  "tupleDecl = CXXRecordDecl 67 None
     (Some (ClassTemplateSpecializationDecl [TA_Pack [TA_Type intPointer]]
        (ClassTemplateDecl 68 None) False))"


definition nonnullPointerArray :: Type where
  "nonnullPointerArray = ConstantArrayType (AttributedType (Some NonNull) intPointer) 2"

definition nullableArray :: Type where
  "nullableArray =
     TemplateSpecializationType (Some nullableAlias) [TA_Type nonnullPointerArray]
       (SubstTemplateTypeParmType 80 0 None False (ConstantArrayType intPointer 2))"



definition nonnullBoxType :: Type where
  "nonnullBoxType =
     TemplateSpecializationType (Some (TemplateDecl 61 False True None))
       [TA_Type (AttributedType (Some NonNull) intPointer)] (RecordType boxDecl)"

definition nullableBox :: Type where
  "nullableBox =
     TemplateSpecializationType (Some nullableAlias) [TA_Type nonnullBoxType]
       (SubstTemplateTypeParmType 80 0 None False (RecordType boxDecl))"

text \<open>
  The comparison \<^verbatim>\<open>p != q\<close> of two pointers whose values have a null state.
\<close>

definition comparison :: Expr where
  "comparison = Expr 70 (BuiltinType BK_Bool) (BinaryOperator BO_NE pValue qValue)"

definition comparisonState :: TransferState where
  "comparisonState =
     \<lparr>Lattice = emptyLattice,
      Env = \<lparr>FlowCondition = [],
             ExprToValue = [pValue \<mapsto> PointerValue 0, qValue \<mapsto> PointerValue 1,
                            comparison \<mapsto> BoolVal (AtomicBoolValue 4)],
             NullState = [0 \<mapsto> (AtomicBoolValue 0, AtomicBoolValue 1),
                          1 \<mapsto> (AtomicBoolValue 2, AtomicBoolValue 3)],
             NextAtom = 5\<rparr>\<rparr>"

section \<open>Properties of the walker\<close>

lemma andThen_simps [simp]:
  "andThen (Inl e) f = Inl e"
  "andThen (Inr x) f = f x"
  by (simp_all add: andThen_def)


lemma andThen_Inr_iff:
  "andThen m f = Inr y \<longleftrightarrow> (\<exists>x. m = Inr x \<and> f x = Inr y)"
  by (cases m) simp_all

lemma andThen_rel:
  "rel_sum (=) R m m' \<Longrightarrow> (\<And>x y. R x y \<Longrightarrow> rel_sum (=) R' (f x) (g y)) \<Longrightarrow>
   rel_sum (=) R' (andThen m f) (andThen m' g)"
  by (cases m; cases m') simp_all

lemmas walker_defs = getNullabilityAnnotationsFromType_def annotationWalker_def
  countPointersInType_def countWalker_def countPointersInDeclContext_def
  countPointersInTemplateArgument_def

lemmas transfer_defs = computeNullability_def insertExprNullabilityIfAbsent_def
  getNullabilityForChild_def annotationsFor_def memberExprNullability_def
  memberCallExprNullability_def substituteNullabilityAnnotationsInClassTemplate_def
  countPointersInExpr_def exprType_def hasPlaceholderType_BoundMember_def
  findBoundMemberType_def unspecifiedNullability_def slice_def isTypeAlias_def

lemmas example_defs = pairDecl_def pairType_def secondResultType_def secondDecl_def xRef_def
  xSecond_def xSecondCall_def intPointer_def emptyLattice_def



lemma replicate_2: "replicate 2 x = [x, x]"
  by (simp add: numeral_2_eq_2)

subsection \<open>The fuel of the walk\<close>

text \<open>
  The fuel only bounds the walks of sugared template arguments: a walk that does not
  run out of fuel gives the same result with any larger amount.
\<close>

lemma andThen_fuel:
  assumes "andThen m f \<noteq> Inl OutOfFuel"
    and "m \<noteq> Inl OutOfFuel \<Longrightarrow> m' = m"
    and "\<And>x. f x \<noteq> Inl OutOfFuel \<Longrightarrow> f' x = f x"
  shows "andThen m' f' = andThen m f"
  using assms by (cases m) auto

lemma Visit_more_fuel:
  fixes impl :: "'s Impl"
  shows "Visit impl fuel Cur T W \<noteq> Inl OutOfFuel \<Longrightarrow>
         Visit impl (Suc fuel) Cur T W = Visit impl fuel Cur T W"
    and "VisitTypes impl fuel Cur Ts W \<noteq> Inl OutOfFuel \<Longrightarrow>
         VisitTypes impl (Suc fuel) Cur Ts W = VisitTypes impl fuel Cur Ts W"
    and "VisitTemplateArgument impl fuel Cur TA W \<noteq> Inl OutOfFuel \<Longrightarrow>
         VisitTemplateArgument impl (Suc fuel) Cur TA W = VisitTemplateArgument impl fuel Cur TA W"
    and "VisitTemplateArguments impl fuel Cur TAs W \<noteq> Inl OutOfFuel \<Longrightarrow>
         VisitTemplateArguments impl (Suc fuel) Cur TAs W
         = VisitTemplateArguments impl fuel Cur TAs W"
    and "VisitDeclContext impl fuel Cur DC W \<noteq> Inl OutOfFuel \<Longrightarrow>
         VisitDeclContext impl (Suc fuel) Cur DC W = VisitDeclContext impl fuel Cur DC W"
proof (induction impl fuel Cur T W and impl fuel Cur Ts W and impl fuel Cur TA W
    and impl fuel Cur TAs W and impl fuel Cur DC W
    rule: Visit_VisitTypes_VisitTemplateArgument_VisitTemplateArguments_VisitDeclContext.induct)
  case (10 impl fuel Cur R Ps W)
  from 10(3) show ?case
    by simp (erule andThen_fuel, erule 10(1), erule 10(2))
next
  case (11 impl fuel Cur D W)
  from 11(3) show ?case
    apply simp
    apply (erule andThen_fuel)
     apply (erule 11(1))
    apply (cases "asSpecialization D")
     apply simp
    apply (simp add: 11(2))
    done
next
  case (12 impl fuel Cur NK T W)
  from 12(2) have "Visit impl fuel Cur T (case NK of None \<Rightarrow> W | Some K \<Rightarrow> sawNullability K W)
      \<noteq> Inl OutOfFuel"
    by (auto simp: andThen_def split: sum.splits)
  from 12(1)[OF this] show ?case by simp
next
  case (13 impl fuel Cur NNS T W)
  then show ?case by (cases "boundTemplateArgs Cur NNS") simp_all
next
  case (14 impl fuel Cur TD As T W)
  show ?case
  proof (cases "isTypeAlias TD")
    case True
    with 14(1)[OF True] 14(5) show ?thesis by simp
  next
    case False
    show ?thesis
    proof (cases "getAsCXXRecordDecl T")
      case None
      with False show ?thesis by simp
    next
      case (Some CRD)
      from 14(5) show ?thesis
        apply (simp add: False Some)
        apply (erule andThen_fuel)
         apply (erule 14(2)[OF False Some])
        apply (erule andThen_fuel)
         apply (erule 14(3)[OF False Some])
        apply (cases "asSpecialization CRD")
         apply simp
        apply (simp add: 14(4)[OF False Some])
        done
    qed
  qed
next
  case (15 impl fuel Cur D Index PackIndex Part T W)
  show ?case
  proof (cases "overrideSubstTemplateTypeParm impl
      (SubstTemplateTypeParmType D Index PackIndex Part T) (derived W)")
    case (Inl e)
    then show ?thesis by simp
  next
    case (Inr b)
    show ?thesis
    proof (cases b)
      case (Some s)
      with Inr show ?thesis by simp
    next
      case None
      show ?thesis
      proof (cases "findSugaredArg D Index PackIndex Cur")
        case N2: None
        with 15(1)[OF Inr None N2] 15(3) Inr None show ?thesis by simp
      next
        case (Some Arg)
        show ?thesis
        proof (cases fuel)
          case 0
          with 15(3) Inr None Some show ?thesis by simp
        next
          case (Suc fuel')
          with 15(2)[OF Inr None Some Suc] 15(3) Inr None Some show ?thesis by simp
        qed
      qed
    qed
  qed
next
  case (17 impl fuel Cur T Ts W)
  from 17(3) show ?case
    by simp (erule andThen_fuel, erule 17(1), erule 17(2))
next
  case (22 impl fuel Cur TA TAs W)
  from 22(3) show ?case
    by simp (erule andThen_fuel, erule 22(1), erule 22(2))
qed simp_all

lemma Visit_fuel_mono:
  "Visit impl fuel Cur T W \<noteq> Inl OutOfFuel \<Longrightarrow>
   Visit impl (fuel + k) Cur T W = Visit impl fuel Cur T W"
proof (induction k)
  case 0
  show ?case by simp
next
  case (Suc k)
  then have "Visit impl (fuel + k) Cur T W \<noteq> Inl OutOfFuel" by simp
  from Visit_more_fuel(1)[OF this] Suc show ?case by simp
qed

lemma getNullabilityAnnotationsFromType_fuel_mono:
  assumes "getNullabilityAnnotationsFromType fuel T h \<noteq> Inl OutOfFuel"
  shows "getNullabilityAnnotationsFromType (fuel + k) T h
         = getNullabilityAnnotationsFromType fuel T h"
proof -
  from assms have "Visit (annotationWalker h) fuel None T (Walker None []) \<noteq> Inl OutOfFuel"
    by (auto simp: getNullabilityAnnotationsFromType_def)
  from Visit_fuel_mono[OF this] show ?thesis
    by (simp add: getNullabilityAnnotationsFromType_def)
qed

lemma countPointersInType_fuel_mono:
  assumes "countPointersInType fuel T \<noteq> Inl OutOfFuel"
  shows "countPointersInType (fuel + k) T = countPointersInType fuel T"
proof -
  from assms have "Visit countWalker fuel None T (Walker None 0) \<noteq> Inl OutOfFuel"
    by (auto simp: countPointersInType_def)
  from Visit_fuel_mono[OF this] show ?thesis
    by (simp add: countPointersInType_def)
qed

subsection \<open>The walkers differ only in what they do with a report\<close>

lemma sim_ignore:
  "sim impl s0 W Wt \<Longrightarrow> sim impl s0 (ignoreUnexpectedNullability W) (ignoreUnexpectedNullability Wt)"
  by (cases W; cases Wt) (simp add: sim_def)

lemma sim_saw:
  "sim impl s0 W Wt \<Longrightarrow> sim impl s0 (sawNullability K W) (sawNullability K Wt)"
  by (cases W; cases Wt) (simp add: sim_def)

lemma sim_report:
  "sim impl s0 W Wt \<Longrightarrow>
   sim impl s0
     (Walker None (report impl (case PendingNullability W of None \<Rightarrow> Unspecified | Some NK \<Rightarrow> NK)
        (derived W)))
     (Walker None (derived Wt @ [case PendingNullability Wt of None \<Rightarrow> Unspecified | Some NK \<Rightarrow> NK]))"
  by (simp add: sim_def)

lemma annot_report [simp]: "report (annotationWalker h) = (\<lambda>NK xs. xs @ [NK])"
  by (simp add: annotationWalker_def)

lemma annot_override_None [simp]:
  "overrideSubstTemplateTypeParm (annotationWalker None) = (\<lambda>ST s. Inr None)"
  by (simp add: annotationWalker_def)

lemma Visit_sim:
  fixes impl :: "'s Impl"
  shows "overrideSubstTemplateTypeParm impl = (\<lambda>ST s. Inr None) \<Longrightarrow> sim impl s0 W Wt \<Longrightarrow>
         rel_sum (=) (sim impl s0) (Visit impl fuel Cur T W)
           (Visit (annotationWalker None) fuel Cur T Wt)"
    and "overrideSubstTemplateTypeParm impl = (\<lambda>ST s. Inr None) \<Longrightarrow> sim impl s0 W Wt \<Longrightarrow>
         rel_sum (=) (sim impl s0) (VisitTypes impl fuel Cur Ts W)
           (VisitTypes (annotationWalker None) fuel Cur Ts Wt)"
    and "overrideSubstTemplateTypeParm impl = (\<lambda>ST s. Inr None) \<Longrightarrow> sim impl s0 W Wt \<Longrightarrow>
         rel_sum (=) (sim impl s0) (VisitTemplateArgument impl fuel Cur TA W)
           (VisitTemplateArgument (annotationWalker None) fuel Cur TA Wt)"
    and "overrideSubstTemplateTypeParm impl = (\<lambda>ST s. Inr None) \<Longrightarrow> sim impl s0 W Wt \<Longrightarrow>
         rel_sum (=) (sim impl s0) (VisitTemplateArguments impl fuel Cur TAs W)
           (VisitTemplateArguments (annotationWalker None) fuel Cur TAs Wt)"
    and "overrideSubstTemplateTypeParm impl = (\<lambda>ST s. Inr None) \<Longrightarrow> sim impl s0 W Wt \<Longrightarrow>
         rel_sum (=) (sim impl s0) (VisitDeclContext impl fuel Cur DC W)
           (VisitDeclContext (annotationWalker None) fuel Cur DC Wt)"
proof (induction impl fuel Cur T W and impl fuel Cur Ts W and impl fuel Cur TA W
    and impl fuel Cur TAs W and impl fuel Cur DC W
    arbitrary: Wt and Wt and Wt and Wt and Wt
    rule: Visit_VisitTypes_VisitTemplateArgument_VisitTemplateArguments_VisitDeclContext.induct)
  case (1 impl fuel Cur K W)
  then show ?case by (simp add: sim_ignore)
next
  case (2 impl fuel Cur T W)
  then show ?case by (simp add: sim_ignore)
next
  case (3 impl fuel Cur T W)
  then show ?case by simp
next
  case (4 impl fuel Cur T W)
  from 4(3) have "PendingNullability W = PendingNullability Wt" by (simp add: sim_def)
  with 4(1)[OF 4(2) sim_report[OF 4(3)]] show ?case by simp
next
  case (5 impl fuel Cur T W)
  then show ?case by (simp add: sim_ignore)
next
  case (6 impl fuel Cur T W)
  then show ?case by (simp add: sim_ignore)
next
  case (7 impl fuel Cur T n W)
  then show ?case by (simp add: sim_ignore)
next
  case (8 impl fuel Cur T W)
  then show ?case by (simp add: sim_ignore)
next
  case (9 impl fuel Cur T W)
  then show ?case by (simp add: sim_ignore)
next
  case (10 impl fuel Cur R Ps W)
  show ?case
    apply simp
    apply (rule andThen_rel[where R = "sim impl s0"])
     apply (rule 10(1)[OF 10(3) sim_ignore[OF 10(4)]])
    apply (rule 10(2)[OF 10(3)])
    apply assumption
    done
next
  case (11 impl fuel Cur D W)
  show ?case
    apply simp
    apply (rule andThen_rel[where R = "sim impl s0"])
     apply (rule 11(1)[OF 11(3) sim_ignore[OF 11(4)]])
    apply (cases "asSpecialization D")
     apply simp
    apply (simp add: 11(2)[OF _ 11(3)])
    done
next
  case (12 impl fuel Cur NK T W)
  have s: "sim impl s0 (case NK of None \<Rightarrow> W | Some K \<Rightarrow> sawNullability K W)
             (case NK of None \<Rightarrow> Wt | Some K \<Rightarrow> sawNullability K Wt)"
    using 12(3) by (cases NK) (simp_all add: sim_saw)
  show ?case
    apply simp
    apply (rule andThen_rel[where R = "sim impl s0"])
     apply (rule 12(1)[OF 12(2) s])
    apply (simp add: sim_def)
    done
next
  case (13 impl fuel Cur NNS T W)
  then show ?case by (cases "boundTemplateArgs Cur NNS") simp_all
next
  case (14 impl fuel Cur TD As T W)
  show ?case
  proof (cases "isTypeAlias TD")
    case True
    have s: "sim impl s0 (case getAliasNullability TD of None \<Rightarrow> W | Some K \<Rightarrow> sawNullability K W)
             (case getAliasNullability TD of None \<Rightarrow> Wt | Some K \<Rightarrow> sawNullability K Wt)"
      using 14(6) by (cases "getAliasNullability TD") (simp_all add: sim_saw)
    show ?thesis using True 14(1)[OF True 14(5) s] by simp
  next
    case False
    show ?thesis
    proof (cases "getAsCXXRecordDecl T")
      case None
      then show ?thesis using False by simp
    next
      case (Some CRD)
      show ?thesis
        apply (simp add: False Some)
        apply (rule andThen_rel[where R = "sim impl s0"])
         apply (rule 14(2)[OF False Some 14(5) sim_ignore[OF 14(6)]])
        apply (rule andThen_rel[where R = "sim impl s0"])
         apply (rule 14(3)[OF False Some 14(5)])
         apply assumption
        apply (cases "asSpecialization CRD")
         apply simp
        apply (simp add: 14(4)[OF False Some _ 14(5)])
        done
    qed
  qed
next
  case (15 impl fuel Cur D Index PackIndex Part T W)
  have p: "PendingNullability W = PendingNullability Wt" using 15(4) by (simp add: sim_def)
  show ?case
  proof (cases "findSugaredArg D Index PackIndex Cur")
    case None
    then show ?thesis using 15(1)[OF _ _ None 15(3) 15(4)] 15(3) by simp
  next
    case (Some Arg)
    show ?thesis
    proof (cases fuel)
      case 0
      then show ?thesis using Some 15(3) by simp
    next
      case (Suc fuel')
      then show ?thesis using Some 15(3) 15(2)[OF _ _ Some Suc 15(3) 15(4)] by simp
    qed
  qed
next
  case (16 impl fuel Cur W)
  then show ?case by simp
next
  case (17 impl fuel Cur T Ts W)
  show ?case
    apply simp
    apply (rule andThen_rel[where R = "sim impl s0"])
     apply (rule 17(1)[OF 17(3) 17(4)])
    apply (rule 17(2)[OF 17(3)])
    apply assumption
    done
next
  case (18 impl fuel Cur T W)
  then show ?case by simp
next
  case (19 impl fuel Cur Elts W)
  then show ?case by simp
next
  case (20 impl fuel Cur W)
  then show ?case by simp
next
  case (21 impl fuel Cur W)
  then show ?case by simp
next
  case (22 impl fuel Cur TA TAs W)
  show ?case
    apply simp
    apply (rule andThen_rel[where R = "sim impl s0"])
     apply (rule 22(1)[OF 22(3) 22(4)])
    apply (rule 22(2)[OF 22(3)])
    apply assumption
    done
next
  case (23 impl fuel Cur W)
  then show ?case by simp
next
  case (24 impl fuel Cur CRD W)
  then show ?case by simp
qed

lemma fold_count: "fold (\<lambda>NK (Count::32 word). Count + 1) ks c = c + of_nat (length ks)"
  by (induction ks arbitrary: c) (simp_all add: algebra_simps)

lemma count_report [simp]: "report countWalker = (\<lambda>NK Count. Count + 1)"
  by (simp add: countWalker_def)

lemma count_override [simp]: "overrideSubstTemplateTypeParm countWalker = (\<lambda>ST s. Inr None)"
  by (simp add: countWalker_def)

lemma count_vs_annotations:
  "countPointersInType fuel T =
     andThen (getNullabilityAnnotationsFromType fuel T None) (\<lambda>V. Inr (word_of_nat (length V)))"
proof -
  have s: "sim countWalker 0 (Walker None 0) (Walker None [])" by (simp add: sim_def)
  have r: "rel_sum (=) (sim countWalker 0) (Visit countWalker fuel None T (Walker None 0))
      (Visit (annotationWalker None) fuel None T (Walker None []))"
    by (rule Visit_sim(1)[OF count_override s])
  show ?thesis
    using r
    by (cases "Visit countWalker fuel None T (Walker None 0)";
        cases "Visit (annotationWalker None) fuel None T (Walker None [])")
       (simp_all add: countPointersInType_def getNullabilityAnnotationsFromType_def sim_def
          fold_count)
qed

text \<open>
  C9. The count of pointers in a type is the length of the vector of annotations that
  the walker without a callback gives for it; when the walk fails, both fail in the same
  way. The count is a 32-bit unsigned: the length is equal to it as a 32-bit value, and
  as a number whenever the vector has fewer than \<open>2 ^ 32\<close> entries.
\<close>

theorem count_is_length:
  "countPointersInType fuel T =
     andThen (getNullabilityAnnotationsFromType fuel T None) (\<lambda>V. Inr (word_of_nat (length V)))
   \<and> (\<forall>V. getNullabilityAnnotationsFromType fuel T None = Inr V \<longrightarrow> length V < 2 ^ 32 \<longrightarrow>
          (\<exists>n. countPointersInType fuel T = Inr n \<and> unat n = length V))"
proof (intro conjI allI impI)
  show "countPointersInType fuel T =
     andThen (getNullabilityAnnotationsFromType fuel T None) (\<lambda>V. Inr (word_of_nat (length V)))"
    by (rule count_vs_annotations)
next
  fix V assume a: "getNullabilityAnnotationsFromType fuel T None = Inr V" and b: "length V < 2 ^ 32"
  have "countPointersInType fuel T = Inr (word_of_nat (length V))"
    by (simp add: count_vs_annotations a)
  moreover have "unat (word_of_nat (length V) :: 32 word) = length V"
    using b by (simp add: unat_of_nat)
  ultimately show "\<exists>n. countPointersInType fuel T = Inr n \<and> unat n = length V" by blast
qed

theorem count_is_length_witness:
  "countPointersInType 0 (PointerType (AttributedType (Some NonNull) intPointer)) = Inr 2
   \<and> getNullabilityAnnotationsFromType 0 (PointerType (AttributedType (Some NonNull) intPointer))
       None = Inr [Unspecified, NonNull]"
proof -
  have w: "getNullabilityAnnotationsFromType 0
      (PointerType (AttributedType (Some NonNull) intPointer)) None = Inr [Unspecified, NonNull]"
    by (simp add: intPointer_def walker_defs)
  from count_is_length[of 0 "PointerType (AttributedType (Some NonNull) intPointer)"] w
  show ?thesis by simp
qed

subsection \<open>The walker before the unification\<close>

lemma raw_walkers_agree:
  "rawPointerType T \<Longrightarrow>
   Visit (annotationWalker None) fuel Cur T (Walker None xs) =
     Inr (Walker None (GetNullabilityAnnotationsFromTypeVisitor_Visit T xs))"
  by (induction T arbitrary: xs rule: rawPointerType.induct) simp_all

text \<open>
  C10. On a type built from raw pointers with nullability attributes written directly
  on the pointer types, the walker of \<^verbatim>\<open>nullability_verification\<close> and the unified walker
  give the same vector.
\<close>

theorem walkers_agree_on_raw_pointers:
  "rawPointerType T \<Longrightarrow>
   getNullabilityAnnotationsFromType fuel T None =
     Inr (getNullabilityAnnotationsFromType_verification T)"
  by (simp add: getNullabilityAnnotationsFromType_def
        getNullabilityAnnotationsFromType_verification_def raw_walkers_agree)

theorem walkers_agree_on_raw_pointers_witness:
  "getNullabilityAnnotationsFromType 0 (AttributedType (Some Nullable) (PointerType intPointer))
     None = Inr [Nullable, Unspecified]
   \<and> getNullabilityAnnotationsFromType_verification
       (AttributedType (Some Nullable) (PointerType intPointer)) = [Nullable, Unspecified]"
proof -
  have r: "rawPointerType (AttributedType (Some Nullable) (PointerType intPointer))"
    by (simp add: intPointer_def)
  have o: "getNullabilityAnnotationsFromType_verification
       (AttributedType (Some Nullable) (PointerType intPointer)) = [Nullable, Unspecified]"
    by (simp add: intPointer_def getNullabilityAnnotationsFromType_verification_def)
  from walkers_agree_on_raw_pointers[OF r, of 0] o show ?thesis by simp
qed

subsection \<open>Which of two annotations is reported\<close>

text \<open>
  The walk of the sugar above a pointer type: the annotation reported at the pointer is
  the first of the pending annotation and the annotations on the sugar, from the
  outside in. A type that is neither a pointer nor sugar is walked as if nothing were
  pending.
\<close>

lemma derived_sawNullability [simp]: "derived (sawNullability K W) = derived W"
  by (cases W) simp




lemma ignore_ignore [simp]:
  "ignoreUnexpectedNullability (ignoreUnexpectedNullability W) = ignoreUnexpectedNullability W"
  by (cases W) simp



lemma nullableArray_annotations:
  "getNullabilityAnnotationsFromType (Suc fuel) nullableArray None = Inr [NonNull]"
  by (simp add: nullableArray_def nonnullPointerArray_def nullableAlias_def intPointer_def
      isTypeAlias_def packAdjustedIndex_def getNullabilityAnnotationsFromType_def)

lemma nullableBox_annotations:
  "getNullabilityAnnotationsFromType (Suc fuel) nullableBox None = Inr [NonNull]"
  by (simp add: nullableBox_def nonnullBoxType_def boxDecl_def nullableAlias_def intPointer_def
      isTypeAlias_def packAdjustedIndex_def getNullabilityAnnotationsFromType_def)




subsection \<open>Where the pending nullability is not consumed\<close>

text \<open>
  C8. The check after the modified type of an attributed type does fire: when the
  callback substitutes a template parameter, \<^verbatim>\<open>VisitSubstTemplateTypeParmType\<close> returns
  with the nullability still pending. For \<^verbatim>\<open>s.p\<close> of type \<^verbatim>\<open>T _Nullable\<close> in
  \<^verbatim>\<open>S<int *>\<close> the walk, and with it the transfer, ends in the failed check.
\<close>

theorem substituted_parameter_leaves_nullability_pending:
  "substituteNullabilityAnnotationsInClassTemplate 0 boxMemberType [Unspecified] boxType
     = Inl BrokenTypeSugar
   \<and> transferAllNonFlowSensitive 0 [boxRef, boxMember] emptyLattice = Inl BrokenTypeSugar"
  by (simp add: boxDecl_def boxType_def boxMemberType_def boxRef_def boxMember_def
      intPointer_def emptyLattice_def transfer_defs walker_defs)

text \<open>
  Where no substituted template parameter is walked, every walk of a type leaves the
  slot empty, whatever the derived class: the check after the modified type of an
  attributed type holds there.
\<close>

lemma consumed_simps [simp]:
  "consumed (Inl e) = (e \<noteq> BrokenTypeSugar)"
  "consumed (Inr W) = (PendingNullability W = None)"
  by (simp_all add: consumed_def)

lemma consumed_andThen:
  "consumed m \<Longrightarrow> (\<And>W. PendingNullability W = None \<Longrightarrow> consumed (f W)) \<Longrightarrow>
   consumed (andThen m f)"
  by (cases m) simp_all

lemma consumed_check:
  "consumed m \<Longrightarrow>
   andThen m (\<lambda>W1. if PendingNullability W1 = None then Inr W1 else Inl BrokenTypeSugar) = m"
  by (cases m) simp_all

lemma pending_ignore [simp]: "PendingNullability (ignoreUnexpectedNullability W) = None"
  by (cases W) simp

lemma boundTemplateArgs_error:
  "boundTemplateArgs Cur NNS = Inl e \<Longrightarrow> e = NullDeclCast"
  by (induction Cur NNS rule: boundTemplateArgs.induct)
     (auto simp: andThen_def split: if_splits option.splits sum.splits)

lemma noSubst_getAsCXXRecordDecl:
  "getAsCXXRecordDecl T = Some D \<Longrightarrow> noSubst T \<Longrightarrow> noSubstDecl D"
  by (induction T rule: getAsCXXRecordDecl.induct) simp_all

lemma noSubstDecl_context:
  "noSubstDecl D \<Longrightarrow> \<forall>C \<in> set_option (getDeclContext D). noSubstDecl C"
  by (cases D) simp

lemma noSubstDecl_args:
  "noSubstDecl D \<Longrightarrow> asSpecialization D = Some CTSD \<Longrightarrow>
   \<forall>TA \<in> set (getTemplateArgs CTSD). noSubstArg TA"
  by (cases D; cases CTSD) simp

lemma Visit_consumes:
  fixes impl :: "'s Impl"
  shows "noSubst T \<Longrightarrow> consumed (Visit impl fuel Cur T W)"
    and "\<forall>T \<in> set Ts. noSubst T \<Longrightarrow> PendingNullability W = None \<Longrightarrow>
         consumed (VisitTypes impl fuel Cur Ts W)"
    and "noSubstArg TA \<Longrightarrow> PendingNullability W = None \<Longrightarrow>
         consumed (VisitTemplateArgument impl fuel Cur TA W)"
    and "\<forall>TA \<in> set TAs. noSubstArg TA \<Longrightarrow> PendingNullability W = None \<Longrightarrow>
         consumed (VisitTemplateArguments impl fuel Cur TAs W)"
    and "\<forall>D \<in> set_option DC. noSubstDecl D \<Longrightarrow> PendingNullability W = None \<Longrightarrow>
         consumed (VisitDeclContext impl fuel Cur DC W)"
proof (induction impl fuel Cur T W and impl fuel Cur Ts W and impl fuel Cur TA W
    and impl fuel Cur TAs W and impl fuel Cur DC W
    rule: Visit_VisitTypes_VisitTemplateArgument_VisitTemplateArguments_VisitDeclContext.induct)
  case (10 impl fuel Cur R Ps W)
  from 10(3) have R: "noSubst R" and Ps: "\<forall>P \<in> set Ps. noSubst P" by simp_all
  show ?case
    by (simp del: consumed_simps) (rule consumed_andThen[OF 10(1)[OF R] 10(2)[OF Ps]])
next
  case (11 impl fuel Cur D W)
  from 11(3) have D: "noSubstDecl D" by simp
  have c: "consumed (VisitDeclContext impl fuel Cur (getDeclContext D)
             (ignoreUnexpectedNullability W))"
    by (rule 11(1)[OF noSubstDecl_context[OF D]]) simp
  show ?case
  proof (cases "asSpecialization D")
    case None
    with c show ?thesis by (simp add: consumed_andThen)
  next
    case (Some CTSD)
    show ?thesis
      by (simp add: Some del: consumed_simps)
         (rule consumed_andThen[OF c 11(2)[OF Some noSubstDecl_args[OF D Some]]])
  qed
next
  case (12 impl fuel Cur NK T W)
  from 12(2) have "noSubst T" by simp
  from 12(1)[OF this] show ?case by (simp add: consumed_check del: consumed_simps)
next
  case (13 impl fuel Cur NNS T W)
  from 13(2) have T: "noSubst T" by simp
  show ?case
  proof (cases "boundTemplateArgs Cur NNS")
    case (Inl e)
    then show ?thesis using boundTemplateArgs_error[OF Inl] by simp
  next
    case (Inr b)
    with 13(1)[OF Inr T] show ?thesis by (simp del: consumed_simps)
  qed
next
  case (14 impl fuel Cur TD As T W)
  from 14(5) have As: "\<forall>TA \<in> set As. noSubstArg TA" and T: "noSubst T" by simp_all
  show ?case
  proof (cases "isTypeAlias TD")
    case True
    with 14(1)[OF True T] show ?thesis by (simp del: consumed_simps)
  next
    case False
    show ?thesis
    proof (cases "getAsCXXRecordDecl T")
      case None
      with False show ?thesis by simp
    next
      case (Some CRD)
      have D: "noSubstDecl CRD" by (rule noSubst_getAsCXXRecordDecl[OF Some T])
      have c: "consumed (VisitDeclContext impl fuel Cur (getDeclContext CRD)
                 (ignoreUnexpectedNullability W))"
        by (rule 14(2)[OF False Some noSubstDecl_context[OF D]]) simp
      have rest: "consumed (case asSpecialization CRD of
                        None \<Rightarrow> Inr W2
                      | Some CTSD \<Rightarrow>
                          VisitTemplateArguments impl fuel Cur
                            (drop (length As) (getTemplateArgs CTSD)) W2)"
        if "PendingNullability W2 = None" for W2
      proof (cases "asSpecialization CRD")
        case None
        with that show ?thesis by simp
      next
        case Some2: (Some CTSD)
        have "\<forall>TA \<in> set (drop (length As) (getTemplateArgs CTSD)). noSubstArg TA"
          using noSubstDecl_args[OF D Some2] by (meson in_set_dropD)
        from 14(4)[OF False Some Some2 this that] show ?thesis
          by (simp add: Some2 del: consumed_simps)
      qed
      show ?thesis
        apply (simp add: False Some del: consumed_simps)
        apply (rule consumed_andThen[OF c])
        apply (rule consumed_andThen)
         apply (rule 14(3)[OF False Some As])
         apply assumption
        apply (rule rest)
        apply assumption
        done
    qed
  qed
next
  case (17 impl fuel Cur T Ts W)
  from 17(3) have T: "noSubst T" and Ts: "\<forall>P \<in> set Ts. noSubst P" by simp_all
  show ?case
    by (simp del: consumed_simps) (rule consumed_andThen[OF 17(1)[OF T] 17(2)[OF Ts]])
next
  case (22 impl fuel Cur TA TAs W)
  from 22(3) have TA: "noSubstArg TA" and TAs: "\<forall>P \<in> set TAs. noSubstArg P" by simp_all
  show ?case
    by (simp del: consumed_simps)
       (rule consumed_andThen[OF 22(1)[OF TA 22(4)] 22(2)[OF TAs]])
next
  case (24 impl fuel Cur CRD W)
  then show ?case by simp
qed simp_all

section \<open>Properties of the rebuilder\<close>

text \<open>
  C2. The rebuilder does not consume the annotations of the pointers that the walker
  finds in the enclosing class of a record type or in a template argument pack: for the
  canonical types \<^verbatim>\<open>S<int *>::Inner\<close> and \<^verbatim>\<open>Tuple<int *>\<close>, which have one pointer
  position each, rebuilding with a vector of length one ends in the check that the
  vector is too long, so there is no rebuilt type to walk.
\<close>

theorem rebuilder_out_of_sync:
  "getCanonicalType (RecordType innerDecl) = RecordType innerDecl
   \<and> getNullabilityAnnotationsFromType 0 (RecordType innerDecl) None = Inr [Unspecified]
   \<and> rebuildWithNullability (RecordType innerDecl) [Nullable] = Inl VectorTooLong
   \<and> rebuildWithNullability (RecordType innerDecl) [Unspecified] = Inl VectorTooLong
   \<and> getCanonicalType (RecordType tupleDecl) = RecordType tupleDecl
   \<and> getNullabilityAnnotationsFromType 0 (RecordType tupleDecl) None = Inr [Unspecified]
   \<and> rebuildWithNullability (RecordType tupleDecl) [Nullable] = Inl VectorTooLong"
  by (simp add: innerDecl_def tupleDecl_def boxDecl_def intPointer_def
      rebuildWithNullability_def walker_defs)

subsection \<open>Where the rebuilder and the walker are in step\<close>

text \<open>
  On a type whose canonical type has no class nested in a class and no argument pack,
  the round trip holds: rebuilding with a vector as long as the annotations of the
  canonical type gives a type with the same canonical type whose annotations are the
  vector.
\<close>

lemma take_add_drop: "take (n + m) V = take n V @ take m (drop n V)"
  by (simp add: take_add)

lemma roundTripTypes_Nil: "roundTripTypes 0 []"
  by (simp add: roundTripTypes_def)

lemma roundTrip_walk:
  "roundTrip n T \<Longrightarrow> Visit (annotationWalker None) fuel Cur T (Walker None s)
        = Inr (Walker None (s @ replicate n Unspecified))"
  unfolding roundTrip_def by blast

lemma roundTrip_rebuild:
  assumes "roundTrip n T" "n \<le> length V"
  obtains T' where "Rebuilder_Visit T V = Inr (T', drop n V)" "getCanonicalType T' = T"
    "\<And>fuel Cur s. Visit (annotationWalker None) fuel Cur T' (Walker None s)
              = Inr (Walker None (s @ take n V))"
  using assms unfolding roundTrip_def by blast

lemma roundTripTypes_walk:
  "roundTripTypes n Ts \<Longrightarrow> VisitTypes (annotationWalker None) fuel Cur Ts (Walker None s)
        = Inr (Walker None (s @ replicate n Unspecified))"
  unfolding roundTripTypes_def by blast

lemma roundTripTypes_rebuild:
  assumes "roundTripTypes n Ts" "n \<le> length V"
  obtains Ts' where "Rebuilder_VisitTypes Ts V = Inr (Ts', drop n V)"
    "map getCanonicalType Ts' = Ts"
    "\<And>fuel Cur s. VisitTypes (annotationWalker None) fuel Cur Ts' (Walker None s)
              = Inr (Walker None (s @ take n V))"
  using assms unfolding roundTripTypes_def by blast

lemma roundTripTypes_Cons:
  assumes "roundTrip n T" "roundTripTypes m Ts"
  shows "roundTripTypes (n + m) (T # Ts)"
  unfolding roundTripTypes_def
proof (intro conjI allI impI)
  fix fuel Cur s
  show "VisitTypes (annotationWalker None) fuel Cur (T # Ts) (Walker None s)
        = Inr (Walker None (s @ replicate (n + m) Unspecified))"
    by (simp add: roundTrip_walk[OF assms(1)] roundTripTypes_walk[OF assms(2)] replicate_add)
next
  fix V :: TypeNullability assume le: "n + m \<le> length V"
  then have le1: "n \<le> length V" and le2: "m \<le> length (drop n V)" by simp_all
  from roundTrip_rebuild[OF assms(1) le1] obtain T' where T':
    "Rebuilder_Visit T V = Inr (T', drop n V)" "getCanonicalType T' = T"
    "\<And>fuel Cur s. Visit (annotationWalker None) fuel Cur T' (Walker None s)
              = Inr (Walker None (s @ take n V))"
    by blast
  from roundTripTypes_rebuild[OF assms(2) le2] obtain Ts' where Ts':
    "Rebuilder_VisitTypes Ts (drop n V) = Inr (Ts', drop m (drop n V))"
    "map getCanonicalType Ts' = Ts"
    "\<And>fuel Cur s. VisitTypes (annotationWalker None) fuel Cur Ts' (Walker None s)
              = Inr (Walker None (s @ take m (drop n V)))"
    by blast
  show "\<exists>Ts'. Rebuilder_VisitTypes (T # Ts) V = Inr (Ts', drop (n + m) V) \<and>
           map getCanonicalType Ts' = T # Ts \<and>
           (\<forall>fuel Cur s. VisitTypes (annotationWalker None) fuel Cur Ts' (Walker None s)
              = Inr (Walker None (s @ take (n + m) V)))"
  proof (intro exI[of _ "T' # Ts'"] conjI allI)
    show "Rebuilder_VisitTypes (T # Ts) V = Inr (T' # Ts', drop (n + m) V)"
      by (simp add: T'(1) Ts'(1) add.commute)
    show "map getCanonicalType (T' # Ts') = T # Ts"
      by (simp add: T'(2) Ts'(2))
    fix fuel Cur s
    show "VisitTypes (annotationWalker None) fuel Cur (T' # Ts') (Walker None s)
              = Inr (Walker None (s @ take (n + m) V))"
      by (simp only: VisitTypes.simps T'(3) Ts'(3) andThen_simps take_add_drop append_assoc)
  qed
qed

lemma roundTripTypes_all:
  "list_all (\<lambda>T. \<exists>n. roundTrip n T) Ts \<Longrightarrow> \<exists>n. roundTripTypes n Ts"
proof (induction Ts)
  case Nil
  then show ?case using roundTripTypes_Nil by blast
next
  case (Cons T Ts)
  then obtain n m where "roundTrip n T" "roundTripTypes m Ts" by auto
  then show ?case using roundTripTypes_Cons by blast
qed

lemma roundTripArg_walk:
  "roundTripArg n TA \<Longrightarrow>
   VisitTemplateArgument (annotationWalker None) fuel Cur TA (Walker None s)
        = Inr (Walker None (s @ replicate n Unspecified))"
  unfolding roundTripArg_def by blast

lemma roundTripArg_rebuild:
  assumes "roundTripArg n TA" "n \<le> length V"
  obtains TA' where "Rebuilder_VisitTemplateArgument TA V = Inr (TA', drop n V)"
    "\<And>fuel Cur s. VisitTemplateArgument (annotationWalker None) fuel Cur TA' (Walker None s)
              = Inr (Walker None (s @ take n V))"
  using assms unfolding roundTripArg_def by blast

lemma roundTripArgs_walk:
  "roundTripArgs n TAs \<Longrightarrow>
   VisitTemplateArguments (annotationWalker None) fuel Cur TAs (Walker None s)
        = Inr (Walker None (s @ replicate n Unspecified))"
  unfolding roundTripArgs_def by blast

lemma roundTripArgs_rebuild:
  assumes "roundTripArgs n TAs" "n \<le> length V"
  obtains TAs' where "Rebuilder_VisitTemplateArguments TAs V = Inr (TAs', drop n V)"
    "length TAs' = length TAs"
    "\<And>fuel Cur s. VisitTemplateArguments (annotationWalker None) fuel Cur TAs' (Walker None s)
              = Inr (Walker None (s @ take n V))"
  using assms unfolding roundTripArgs_def by blast

lemma roundTripArgs_Nil: "roundTripArgs 0 []"
  by (simp add: roundTripArgs_def)

lemma roundTripArgs_Cons:
  assumes "roundTripArg n TA" "roundTripArgs m TAs"
  shows "roundTripArgs (n + m) (TA # TAs)"
  unfolding roundTripArgs_def
proof (intro conjI allI impI)
  fix fuel Cur s
  show "VisitTemplateArguments (annotationWalker None) fuel Cur (TA # TAs) (Walker None s)
        = Inr (Walker None (s @ replicate (n + m) Unspecified))"
    by (simp add: roundTripArg_walk[OF assms(1)] roundTripArgs_walk[OF assms(2)] replicate_add)
next
  fix V :: TypeNullability assume le: "n + m \<le> length V"
  then have le1: "n \<le> length V" and le2: "m \<le> length (drop n V)" by simp_all
  from roundTripArg_rebuild[OF assms(1) le1] obtain TA' where TA':
    "Rebuilder_VisitTemplateArgument TA V = Inr (TA', drop n V)"
    "\<And>fuel Cur s. VisitTemplateArgument (annotationWalker None) fuel Cur TA' (Walker None s)
              = Inr (Walker None (s @ take n V))"
    by blast
  from roundTripArgs_rebuild[OF assms(2) le2] obtain TAs' where TAs':
    "Rebuilder_VisitTemplateArguments TAs (drop n V) = Inr (TAs', drop m (drop n V))"
    "length TAs' = length TAs"
    "\<And>fuel Cur s. VisitTemplateArguments (annotationWalker None) fuel Cur TAs' (Walker None s)
              = Inr (Walker None (s @ take m (drop n V)))"
    by blast
  show "\<exists>TAs'. Rebuilder_VisitTemplateArguments (TA # TAs) V = Inr (TAs', drop (n + m) V) \<and>
           length TAs' = length (TA # TAs) \<and>
           (\<forall>fuel Cur s.
              VisitTemplateArguments (annotationWalker None) fuel Cur TAs' (Walker None s)
              = Inr (Walker None (s @ take (n + m) V)))"
  proof (intro exI[of _ "TA' # TAs'"] conjI allI)
    show "Rebuilder_VisitTemplateArguments (TA # TAs) V = Inr (TA' # TAs', drop (n + m) V)"
      by (simp add: TA'(1) TAs'(1) add.commute)
    show "length (TA' # TAs') = length (TA # TAs)"
      by (simp add: TAs'(2))
    fix fuel Cur s
    show "VisitTemplateArguments (annotationWalker None) fuel Cur (TA' # TAs') (Walker None s)
              = Inr (Walker None (s @ take (n + m) V))"
      by (simp only: VisitTemplateArguments.simps TA'(2) TAs'(3) andThen_simps take_add_drop
            append_assoc)
  qed
qed

lemma roundTripArgs_all:
  "list_all (\<lambda>TA. \<exists>n. roundTripArg n TA) TAs \<Longrightarrow> \<exists>n. roundTripArgs n TAs"
proof (induction TAs)
  case Nil
  then show ?case using roundTripArgs_Nil by blast
next
  case (Cons TA TAs)
  then obtain n m where "roundTripArg n TA" "roundTripArgs m TAs" by auto
  then show ?case using roundTripArgs_Cons by blast
qed

lemma roundTrip_leaf:
  "roundTrip 0 (BuiltinType K)"
  "getCanonicalType T = T \<Longrightarrow> roundTrip 0 (MemberPointerType T)"
  "roundTrip 0 (RecordType (CXXRecordDecl i None None))"
  by (simp_all add: roundTrip_def)

lemma roundTrip_Pointer:
  assumes "roundTrip n T"
  shows "roundTrip (Suc n) (PointerType T)"
  unfolding roundTrip_def
proof (intro conjI allI impI)
  fix fuel Cur s
  show "Visit (annotationWalker None) fuel Cur (PointerType T) (Walker None s)
        = Inr (Walker None (s @ replicate (Suc n) Unspecified))"
    by (simp add: roundTrip_walk[OF assms])
next
  fix V :: TypeNullability assume le: "Suc n \<le> length V"
  then obtain NK Rest where V: "V = NK # Rest" and le1: "n \<le> length Rest"
    by (cases V) auto
  from roundTrip_rebuild[OF assms le1] obtain T' where T':
    "Rebuilder_Visit T Rest = Inr (T', drop n Rest)" "getCanonicalType T' = T"
    "\<And>fuel Cur s. Visit (annotationWalker None) fuel Cur T' (Walker None s)
              = Inr (Walker None (s @ take n Rest))"
    by blast
  let ?R = "if NK = Unspecified then PointerType T' else AttributedType (Some NK) (PointerType T')"
  show "\<exists>T'. Rebuilder_Visit (PointerType T) V = Inr (T', drop (Suc n) V) \<and>
           getCanonicalType T' = PointerType T \<and>
           (\<forall>fuel Cur s. Visit (annotationWalker None) fuel Cur T' (Walker None s)
              = Inr (Walker None (s @ take (Suc n) V)))"
  proof (intro exI[of _ ?R] conjI allI)
    show "Rebuilder_Visit (PointerType T) V = Inr (?R, drop (Suc n) V)"
      by (simp add: V T'(1))
    show "getCanonicalType ?R = PointerType T"
      by (simp add: T'(2))
    fix fuel Cur s
    show "Visit (annotationWalker None) fuel Cur ?R (Walker None s)
              = Inr (Walker None (s @ take (Suc n) V))"
      by (simp add: V T'(3))
  qed
qed

lemma roundTrip_wrap:
  assumes "roundTrip n T"
  shows "roundTrip n (LValueReferenceType T)" "roundTrip n (RValueReferenceType T)"
    "roundTrip n (ConstantArrayType T k)" "roundTrip n (IncompleteArrayType T)"
    "roundTrip n (VariableArrayType T)"
proof -
  have walk: "\<And>fuel Cur s. Visit (annotationWalker None) fuel Cur T (Walker None s)
        = Inr (Walker None (s @ replicate n Unspecified))"
    by (rule roundTrip_walk[OF assms])
  have reb: "\<And>V. n \<le> length V \<Longrightarrow>
     \<exists>T'. Rebuilder_Visit T V = Inr (T', drop n V) \<and> getCanonicalType T' = T \<and>
        (\<forall>fuel Cur s. Visit (annotationWalker None) fuel Cur T' (Walker None s)
              = Inr (Walker None (s @ take n V)))"
    using assms unfolding roundTrip_def by blast
  show "roundTrip n (LValueReferenceType T)"
    unfolding roundTrip_def
  proof (intro conjI allI impI)
    fix V :: TypeNullability assume "n \<le> length V"
    from reb[OF this] obtain T' where T':
      "Rebuilder_Visit T V = Inr (T', drop n V)" "getCanonicalType T' = T"
      "\<And>fuel Cur s. Visit (annotationWalker None) fuel Cur T' (Walker None s)
              = Inr (Walker None (s @ take n V))" by blast
    show "\<exists>T'. Rebuilder_Visit (LValueReferenceType T) V = Inr (T', drop n V) \<and>
           getCanonicalType T' = LValueReferenceType T \<and>
           (\<forall>fuel Cur s. Visit (annotationWalker None) fuel Cur T' (Walker None s)
              = Inr (Walker None (s @ take n V)))"
      by (intro exI[of _ "LValueReferenceType T'"]) (simp add: T')
  qed (simp add: walk)
  show "roundTrip n (RValueReferenceType T)"
    unfolding roundTrip_def
  proof (intro conjI allI impI)
    fix V :: TypeNullability assume "n \<le> length V"
    from reb[OF this] obtain T' where T':
      "Rebuilder_Visit T V = Inr (T', drop n V)" "getCanonicalType T' = T"
      "\<And>fuel Cur s. Visit (annotationWalker None) fuel Cur T' (Walker None s)
              = Inr (Walker None (s @ take n V))" by blast
    show "\<exists>T'. Rebuilder_Visit (RValueReferenceType T) V = Inr (T', drop n V) \<and>
           getCanonicalType T' = RValueReferenceType T \<and>
           (\<forall>fuel Cur s. Visit (annotationWalker None) fuel Cur T' (Walker None s)
              = Inr (Walker None (s @ take n V)))"
      by (intro exI[of _ "RValueReferenceType T'"]) (simp add: T')
  qed (simp add: walk)
  show "roundTrip n (ConstantArrayType T k)"
    unfolding roundTrip_def
  proof (intro conjI allI impI)
    fix V :: TypeNullability assume "n \<le> length V"
    from reb[OF this] obtain T' where T':
      "Rebuilder_Visit T V = Inr (T', drop n V)" "getCanonicalType T' = T"
      "\<And>fuel Cur s. Visit (annotationWalker None) fuel Cur T' (Walker None s)
              = Inr (Walker None (s @ take n V))" by blast
    show "\<exists>T'. Rebuilder_Visit (ConstantArrayType T k) V = Inr (T', drop n V) \<and>
           getCanonicalType T' = ConstantArrayType T k \<and>
           (\<forall>fuel Cur s. Visit (annotationWalker None) fuel Cur T' (Walker None s)
              = Inr (Walker None (s @ take n V)))"
      by (intro exI[of _ "ConstantArrayType T' k"]) (simp add: T')
  qed (simp add: walk)
  show "roundTrip n (IncompleteArrayType T)"
    unfolding roundTrip_def
  proof (intro conjI allI impI)
    fix V :: TypeNullability assume "n \<le> length V"
    from reb[OF this] obtain T' where T':
      "Rebuilder_Visit T V = Inr (T', drop n V)" "getCanonicalType T' = T"
      "\<And>fuel Cur s. Visit (annotationWalker None) fuel Cur T' (Walker None s)
              = Inr (Walker None (s @ take n V))" by blast
    show "\<exists>T'. Rebuilder_Visit (IncompleteArrayType T) V = Inr (T', drop n V) \<and>
           getCanonicalType T' = IncompleteArrayType T \<and>
           (\<forall>fuel Cur s. Visit (annotationWalker None) fuel Cur T' (Walker None s)
              = Inr (Walker None (s @ take n V)))"
      by (intro exI[of _ "IncompleteArrayType T'"]) (simp add: T')
  qed (simp add: walk)
  show "roundTrip n (VariableArrayType T)"
    unfolding roundTrip_def
  proof (intro conjI allI impI)
    fix V :: TypeNullability assume "n \<le> length V"
    from reb[OF this] obtain T' where T':
      "Rebuilder_Visit T V = Inr (T', drop n V)" "getCanonicalType T' = T"
      "\<And>fuel Cur s. Visit (annotationWalker None) fuel Cur T' (Walker None s)
              = Inr (Walker None (s @ take n V))" by blast
    show "\<exists>T'. Rebuilder_Visit (VariableArrayType T) V = Inr (T', drop n V) \<and>
           getCanonicalType T' = VariableArrayType T \<and>
           (\<forall>fuel Cur s. Visit (annotationWalker None) fuel Cur T' (Walker None s)
              = Inr (Walker None (s @ take n V)))"
      by (intro exI[of _ "VariableArrayType T'"]) (simp add: T')
  qed (simp add: walk)
qed

lemma roundTrip_FunctionProto:
  assumes "roundTrip n R" "roundTripTypes m Ps"
  shows "roundTrip (n + m) (FunctionProtoType R Ps)"
  unfolding roundTrip_def
proof (intro conjI allI impI)
  fix fuel Cur s
  show "Visit (annotationWalker None) fuel Cur (FunctionProtoType R Ps) (Walker None s)
        = Inr (Walker None (s @ replicate (n + m) Unspecified))"
    by (simp add: roundTrip_walk[OF assms(1)] roundTripTypes_walk[OF assms(2)] replicate_add)
next
  fix V :: TypeNullability assume le: "n + m \<le> length V"
  then have le1: "n \<le> length V" and le2: "m \<le> length (drop n V)" by simp_all
  from roundTrip_rebuild[OF assms(1) le1] obtain R' where R':
    "Rebuilder_Visit R V = Inr (R', drop n V)" "getCanonicalType R' = R"
    "\<And>fuel Cur s. Visit (annotationWalker None) fuel Cur R' (Walker None s)
              = Inr (Walker None (s @ take n V))"
    by blast
  from roundTripTypes_rebuild[OF assms(2) le2] obtain Ps' where Ps':
    "Rebuilder_VisitTypes Ps (drop n V) = Inr (Ps', drop m (drop n V))"
    "map getCanonicalType Ps' = Ps"
    "\<And>fuel Cur s. VisitTypes (annotationWalker None) fuel Cur Ps' (Walker None s)
              = Inr (Walker None (s @ take m (drop n V)))"
    by blast
  show "\<exists>T'. Rebuilder_Visit (FunctionProtoType R Ps) V = Inr (T', drop (n + m) V) \<and>
           getCanonicalType T' = FunctionProtoType R Ps \<and>
           (\<forall>fuel Cur s. Visit (annotationWalker None) fuel Cur T' (Walker None s)
              = Inr (Walker None (s @ take (n + m) V)))"
  proof (intro exI[of _ "FunctionProtoType R' Ps'"] conjI allI)
    show "Rebuilder_Visit (FunctionProtoType R Ps) V
          = Inr (FunctionProtoType R' Ps', drop (n + m) V)"
      by (simp add: R'(1) Ps'(1) add.commute)
    show "getCanonicalType (FunctionProtoType R' Ps') = FunctionProtoType R Ps"
      by (simp add: R'(2) Ps'(2))
    fix fuel Cur s
    show "Visit (annotationWalker None) fuel Cur (FunctionProtoType R' Ps') (Walker None s)
              = Inr (Walker None (s @ take (n + m) V))"
      by (simp add: R'(3) Ps'(3) take_add_drop)
  qed
qed

lemma roundTrip_Specialization:
  assumes "roundTripArgs n As"
  shows "roundTrip n
    (RecordType (CXXRecordDecl i None (Some (ClassTemplateSpecializationDecl As CTD Part))))"
  unfolding roundTrip_def
proof (intro conjI allI impI)
  fix fuel Cur s
  show "Visit (annotationWalker None) fuel Cur
          (RecordType (CXXRecordDecl i None (Some (ClassTemplateSpecializationDecl As CTD Part))))
          (Walker None s)
        = Inr (Walker None (s @ replicate n Unspecified))"
    by (simp add: roundTripArgs_walk[OF assms])
next
  let ?D = "CXXRecordDecl i None (Some (ClassTemplateSpecializationDecl As CTD Part))"
  fix V :: TypeNullability assume le: "n \<le> length V"
  from roundTripArgs_rebuild[OF assms le] obtain As' where As':
    "Rebuilder_VisitTemplateArguments As V = Inr (As', drop n V)"
    "length As' = length As"
    "\<And>fuel Cur s. VisitTemplateArguments (annotationWalker None) fuel Cur As' (Walker None s)
              = Inr (Walker None (s @ take n V))"
    by blast
  let ?R = "TemplateSpecializationType (Some (asTemplateDecl CTD)) As' (RecordType ?D)"
  show "\<exists>T'. Rebuilder_Visit (RecordType ?D) V = Inr (T', drop n V) \<and>
           getCanonicalType T' = RecordType ?D \<and>
           (\<forall>fuel Cur s. Visit (annotationWalker None) fuel Cur T' (Walker None s)
              = Inr (Walker None (s @ take n V)))"
  proof (intro exI[of _ ?R] conjI allI)
    show "Rebuilder_Visit (RecordType ?D) V = Inr (?R, drop n V)"
      by (simp add: As'(1))
    show "getCanonicalType ?R = RecordType ?D"
      by simp
    fix fuel Cur s
    show "Visit (annotationWalker None) fuel Cur ?R (Walker None s)
              = Inr (Walker None (s @ take n V))"
      by (simp add: As'(2,3) isTypeAlias_def asTemplateDecl_def)
  qed
qed

lemma roundTripArg_Type:
  assumes "roundTrip n T"
  shows "roundTripArg n (TA_Type T)"
  unfolding roundTripArg_def
proof (intro conjI allI impI)
  fix fuel Cur s
  show "VisitTemplateArgument (annotationWalker None) fuel Cur (TA_Type T) (Walker None s)
        = Inr (Walker None (s @ replicate n Unspecified))"
    by (simp add: roundTrip_walk[OF assms])
next
  fix V :: TypeNullability assume le: "n \<le> length V"
  from roundTrip_rebuild[OF assms le] obtain T' where T':
    "Rebuilder_Visit T V = Inr (T', drop n V)" "getCanonicalType T' = T"
    "\<And>fuel Cur s. Visit (annotationWalker None) fuel Cur T' (Walker None s)
              = Inr (Walker None (s @ take n V))"
    by blast
  show "\<exists>TA'. Rebuilder_VisitTemplateArgument (TA_Type T) V = Inr (TA', drop n V) \<and>
           (\<forall>fuel Cur s.
              VisitTemplateArgument (annotationWalker None) fuel Cur TA' (Walker None s)
              = Inr (Walker None (s @ take n V)))"
    by (intro exI[of _ "TA_Type T'"]) (simp add: T')
qed

lemma roundTripArg_Other: "roundTripArg 0 TA_Other"
  by (simp add: roundTripArg_def)

lemma inSync_roundTrip:
  "inSync T \<Longrightarrow> \<exists>n. roundTrip n T"
  "inSyncArg TA \<Longrightarrow> \<exists>n. roundTripArg n TA"
proof (induction T and TA rule: inSync_inSyncArg.induct)
  case (1 K)
  show ?case by (rule exI[of _ 0]) (rule roundTrip_leaf(1))
next
  case (2 T)
  then obtain n where "roundTrip n T" by auto
  then show ?case by (blast intro: roundTrip_Pointer)
next
  case (3 T)
  then obtain n where "roundTrip n T" by auto
  then show ?case by (blast intro: roundTrip_wrap(1))
next
  case (4 T)
  then obtain n where "roundTrip n T" by auto
  then show ?case by (blast intro: roundTrip_wrap(2))
next
  case (5 T k)
  then obtain n where "roundTrip n T" by auto
  then show ?case by (blast intro: roundTrip_wrap(3))
next
  case (6 T)
  then obtain n where "roundTrip n T" by auto
  then show ?case by (blast intro: roundTrip_wrap(4))
next
  case (7 T)
  then obtain n where "roundTrip n T" by auto
  then show ?case by (blast intro: roundTrip_wrap(5))
next
  case (8 R Ps)
  from 8(1,3) obtain n where n: "roundTrip n R" by auto
  from 8(3) have "list_all inSync Ps" by simp
  with 8(2) have "list_all (\<lambda>T. \<exists>n. roundTrip n T) Ps"
    by (simp add: list_all_iff)
  from roundTripTypes_all[OF this] obtain m where "roundTripTypes m Ps" by blast
  with n show ?case by (blast intro: roundTrip_FunctionProto)
next
  case (9 T)
  then have "getCanonicalType T = T" by simp
  then show ?case by (blast intro: roundTrip_leaf(2))
next
  case (10 i DC)
  then have "DC = None" by simp
  then show ?case by (blast intro: roundTrip_leaf(3))
next
  case (11 i DC As CTD Part)
  from 11(2) have DC: "DC = None" and "list_all inSyncArg As" by simp_all
  with 11(1) have "list_all (\<lambda>TA. \<exists>n. roundTripArg n TA) As"
    by (simp add: list_all_iff)
  from roundTripArgs_all[OF this] obtain n where "roundTripArgs n As" by blast
  then show ?case unfolding DC by (blast intro: roundTrip_Specialization)
next
  case (13 T)
  then obtain n where "roundTrip n T" by auto
  then show ?case by (blast intro: roundTripArg_Type)
next
  case 15
  show ?case by (rule exI[of _ 0]) (rule roundTripArg_Other)
qed simp_all

lemma rebuild_round_trip_in_sync:
  assumes sync: "inSync (getCanonicalType T)"
    and annot: "getNullabilityAnnotationsFromType fuel (getCanonicalType T) None = Inr a"
    and len: "length v = length a"
  shows "\<exists>T'. rebuildWithNullability T v = Inr T' \<and>
           getNullabilityAnnotationsFromType fuel' T' None = Inr v \<and>
           getCanonicalType T' = getCanonicalType T"
proof -
  from inSync_roundTrip(1)[OF sync] obtain n where n: "roundTrip n (getCanonicalType T)"
    by blast
  from annot have "a = replicate n Unspecified"
    by (simp add: getNullabilityAnnotationsFromType_def roundTrip_walk[OF n])
  with len have lv: "length v = n" by simp
  then have "n \<le> length v" by simp
  from roundTrip_rebuild[OF n this] obtain T' where T':
    "Rebuilder_Visit (getCanonicalType T) v = Inr (T', drop n v)"
    "getCanonicalType T' = getCanonicalType T"
    "\<And>fuel Cur s. Visit (annotationWalker None) fuel Cur T' (Walker None s)
              = Inr (Walker None (s @ take n v))"
    by blast
  show ?thesis
    by (rule exI[of _ T'])
       (simp add: rebuildWithNullability_def getNullabilityAnnotationsFromType_def T' lv)
qed

section \<open>Properties of the non-flow-sensitive transfer\<close>

lemma insert_preserves:
  assumes inv: "lengthInvariant fuel L"
    and G: "\<And>V L1. G L = Inr (V, L1) \<Longrightarrow>
              lengthInvariant fuel L1 \<and> (\<exists>n. countPointersInExpr fuel E = Inr n \<and> length V = unat n)"
    and run: "insertExprNullabilityIfAbsent L E G = Inr (V', L')"
  shows "lengthInvariant fuel L'"
proof (cases "ExprToNullability L E")
  case (Some V0)
  with run have "L' = L" by (simp add: insertExprNullabilityIfAbsent_def)
  with inv show ?thesis by simp
next
  case None
  with run obtain V L1 where g: "G L = Inr (V, L1)"
    and r: "(case ExprToNullability L1 E of
               Some V1 \<Rightarrow> Inr (V1, L1)
             | None \<Rightarrow> Inr (V, L1\<lparr>ExprToNullability := (ExprToNullability L1)(E \<mapsto> V)\<rparr>))
            = (Inr (V', L') :: error + TypeNullability \<times> PointerNullabilityLattice)"
    by (auto simp: insertExprNullabilityIfAbsent_def andThen_Inr_iff)
  from G[OF g] have i1: "lengthInvariant fuel L1"
    and len: "\<exists>n. countPointersInExpr fuel E = Inr n \<and> length V = unat n" by simp_all
  show ?thesis
  proof (cases "ExprToNullability L1 E")
    case (Some V1)
    with r have "L' = L1" by simp
    with i1 show ?thesis by simp
  next
    case None
    with r have "L' = L1\<lparr>ExprToNullability := (ExprToNullability L1)(E \<mapsto> V)\<rparr>" by auto
    with i1 len show ?thesis by (auto simp: lengthInvariant_def)
  qed
qed

lemma getNullabilityForChild_preserves: "preservesLength fuel (getNullabilityForChild fuel E)"
  unfolding preservesLength_def
proof (intro allI impI)
  fix L V L1
  assume inv: "lengthInvariant fuel L" and run: "getNullabilityForChild fuel E L = Inr (V, L1)"
  show "lengthInvariant fuel L1"
  proof (rule insert_preserves[OF inv _ run[unfolded getNullabilityForChild_def]])
    fix V0 L0
    assume "andThen (unspecifiedNullability fuel E) (\<lambda>V. Inr (V, L)) = Inr (V0, L0)"
    then show "lengthInvariant fuel L0 \<and>
        (\<exists>n. countPointersInExpr fuel E = Inr n \<and> length V0 = unat n)"
      using inv by (auto simp: andThen_Inr_iff unspecifiedNullability_def)
  qed
qed

lemma computeNullability_preserves:
  assumes f: "preservesLength fuel Compute"
    and inv: "lengthInvariant fuel L"
    and run: "computeNullability fuel E L Compute = Inr L'"
  shows "lengthInvariant fuel L'"
proof -
  from run obtain V where ins: "insertExprNullabilityIfAbsent L E
          (\<lambda>L0. andThen (Compute L0)
             (\<lambda>(Nullability, L1).
                andThen (countPointersInExpr fuel E)
                  (\<lambda>ExpectedSize.
                     Inr (if unat ExpectedSize \<noteq> length Nullability
                          then replicate (unat ExpectedSize) Unspecified
                          else Nullability, L1)))) = Inr (V, L')"
    by (auto simp: computeNullability_def andThen_Inr_iff)
  show ?thesis
  proof (rule insert_preserves[OF inv _ ins])
    fix V0 L0
    assume "andThen (Compute L)
             (\<lambda>(Nullability, L1).
                andThen (countPointersInExpr fuel E)
                  (\<lambda>ExpectedSize.
                     Inr (if unat ExpectedSize \<noteq> length Nullability
                          then replicate (unat ExpectedSize) Unspecified
                          else Nullability, L1))) = Inr (V0, L0)"
    then obtain N n where c: "Compute L = Inr (N, L0)" and n: "countPointersInExpr fuel E = Inr n"
      and v: "V0 = (if unat n \<noteq> length N then replicate (unat n) Unspecified else N)"
      by (auto simp: andThen_Inr_iff)
    from f inv c have "lengthInvariant fuel L0" by (auto simp: preservesLength_def)
    moreover have "length V0 = unat n" using v by auto
    ultimately show "lengthInvariant fuel L0 \<and>
        (\<exists>n. countPointersInExpr fuel E = Inr n \<and> length V0 = unat n)"
      using n by simp
  qed
qed

lemma preserves_after:
  "preservesLength fuel f \<Longrightarrow>
   preservesLength fuel (\<lambda>L. andThen (f L) (\<lambda>(V, L1). andThen (h V) (\<lambda>V'. Inr (V', L1))))"
  by (auto simp: preservesLength_def andThen_Inr_iff)

lemma preserves_after_pure:
  "preservesLength fuel f \<Longrightarrow>
   preservesLength fuel (\<lambda>L. andThen (f L) (\<lambda>(V, L1). Inr (h V, L1)))"
  by (auto simp: preservesLength_def andThen_Inr_iff)

lemma unspecifiedFor_preserves: "preservesLength fuel (unspecifiedFor fuel E)"
  by (auto simp: preservesLength_def unspecifiedFor_def andThen_Inr_iff)

lemma annotationsFor_preserves: "preservesLength fuel (annotationsFor fuel E)"
  by (auto simp: preservesLength_def annotationsFor_def andThen_Inr_iff)

lemma PreserveTopLevelPointers_preserves:
  "preservesLength fuel (PreserveTopLevelPointers fuel CE SubExpr)"
  using getNullabilityForChild_preserves[of fuel SubExpr]
  by (auto simp: preservesLength_def PreserveTopLevelPointers_def andThen_Inr_iff)

lemma memberExprNullability_preserves:
  "preservesLength fuel (memberExprNullability fuel ME Base MD)"
  using getNullabilityForChild_preserves[of fuel Base]
  by (auto simp: preservesLength_def memberExprNullability_def andThen_Inr_iff)

lemma memberCallExprNullability_preserves:
  "preservesLength fuel (memberCallExprNullability fuel MCE Callee)"
  using getNullabilityForChild_preserves[of fuel Callee]
  by (auto simp: preservesLength_def memberCallExprNullability_def andThen_Inr_iff)

lemma arraySubscriptNullability_preserves:
  "preservesLength fuel (arraySubscriptNullability fuel Base)"
  using getNullabilityForChild_preserves[of fuel Base]
  by (auto simp: preservesLength_def arraySubscriptNullability_def andThen_Inr_iff
      split: if_splits)

lemma prepend_child_preserves:
  "preservesLength fuel
     (\<lambda>L. andThen (getNullabilityForChild fuel E L) (\<lambda>(V, L1). Inr (prepend NonNull V, L1)))"
  by (rule preserves_after_pure[OF getNullabilityForChild_preserves])

lemma castNullability_preserves:
  "preservesLength fuel (castNullability CK fuel CE SubExpr)"
proof -
  have dyn: "preservesLength fuel (\<lambda>L. andThen (unspecifiedNullability fuel CE)
       (\<lambda>Result.
          if isPointerType (getType CE)
          then andThen (setFront Nullable Result) (\<lambda>V. Inr (V, L))
          else Inr (Result, L)))"
    by (auto simp: preservesLength_def andThen_Inr_iff split: if_splits)
  have n2p: "preservesLength fuel
     (\<lambda>L. andThen (getNullabilityAnnotationsFromType fuel (getType CE) None)
       (\<lambda>Nullability.
          if \<not> isNullPtrType (getType CE)
          then andThen (setFront Nullable Nullability) (\<lambda>V. Inr (V, L))
          else Inr (Nullability, L)))"
    by (auto simp: preservesLength_def andThen_Inr_iff split: if_splits)
  have emp: "preservesLength fuel (\<lambda>L. Inr ([], L))"
    by (auto simp: preservesLength_def)
  have dep: "preservesLength fuel (\<lambda>L. Inl DependentCast)"
    by (auto simp: preservesLength_def)
  have eta: "\<And>K. (\<lambda>L. castNullability K fuel CE SubExpr L) = castNullability K fuel CE SubExpr"
    by simp
  show ?thesis
    by (cases CK)
       (simp_all only: castNullability.simps[abs_def] dyn n2p emp dep
          PreserveTopLevelPointers_preserves getNullabilityForChild_preserves
          unspecifiedFor_preserves prepend_child_preserves eta)
qed

lemma unaryOperatorNullability_preserves:
  "preservesLength fuel (unaryOperatorNullability Opc fuel UO SubExpr)"
proof -
  have deref: "preservesLength fuel
     (\<lambda>L. andThen (getNullabilityForChild fuel SubExpr L)
       (\<lambda>(V, L1). andThen (dropFront V) (\<lambda>V'. Inr (V', L1))))"
    by (rule preserves_after[OF getNullabilityForChild_preserves])
  show ?thesis
    by (cases Opc)
       (simp_all only: unaryOperatorNullability.simps[abs_def] deref
          getNullabilityForChild_preserves unspecifiedFor_preserves prepend_child_preserves)
qed

lemma transferNonFlowSensitive_preserves:
  "lengthInvariant fuel L \<Longrightarrow> transferNonFlowSensitive fuel E L = Inr L' \<Longrightarrow>
   lengthInvariant fuel L'"
proof (induction fuel E L rule: transferNonFlowSensitive.induct)
  case (6 fuel i T Callee L)
  have "preservesLength fuel
     (\<lambda>L0. andThen (substituteNullabilityAnnotationsInFunctionTemplate fuel T Callee)
              (\<lambda>V. Inr (V, L0)))"
    by (auto simp: preservesLength_def andThen_Inr_iff)
  from computeNullability_preserves[OF this 6(1)] 6(2) show ?case by simp
next
  case (8 fuel i T NullCheck L)
  have "preservesLength fuel
     (\<lambda>L0. andThen (getNullabilityAnnotationsFromType fuel T None)
                (\<lambda>result. andThen (setFront (if NullCheck then Nullable else NonNull) result)
                   (\<lambda>V. Inr (V, L0))))"
    by (auto simp: preservesLength_def andThen_Inr_iff)
  from computeNullability_preserves[OF this 8(1)] 8(2) show ?case by simp
next
  case (10 fuel i T L)
  have "preservesLength fuel
     (\<lambda>L0. andThen (getNullabilityAnnotationsFromType fuel T None)
                (\<lambda>result. andThen (setFront NonNull result) (\<lambda>V. Inr (V, L0))))"
    by (auto simp: preservesLength_def andThen_Inr_iff)
  from computeNullability_preserves[OF this 10(1)] 10(2) show ?case by simp
qed (auto dest: computeNullability_preserves[rotated 2]
      simp: annotationsFor_preserves memberExprNullability_preserves
        memberCallExprNullability_preserves castNullability_preserves
        getNullabilityForChild_preserves unaryOperatorNullability_preserves
        arraySubscriptNullability_preserves)

lemma transferAll_preserves:
  "lengthInvariant fuel L \<Longrightarrow> transferAllNonFlowSensitive fuel Es L = Inr L' \<Longrightarrow>
   lengthInvariant fuel L'"
  by (induction Es arbitrary: L)
     (auto simp: andThen_Inr_iff dest: transferNonFlowSensitive_preserves)

text \<open>
  C3. The transfer keeps the length invariant: every vector in the lattice has as many
  entries as the type of its expression has pointers. So it holds of every expression
  mapped after any sequence of transfer steps from the empty lattice. And when the
  callback of a rule gives a vector of another length, the vector stored is the
  all-Unspecified vector of the right length.
\<close>

theorem expr_nullability_length:
  "(lengthInvariant fuel L \<longrightarrow> transferAllNonFlowSensitive fuel Es L = Inr L' \<longrightarrow>
      lengthInvariant fuel L')
   \<and> (ExprToNullability L0 = Map.empty \<longrightarrow>
        transferAllNonFlowSensitive fuel Es L0 = Inr L1 \<longrightarrow>
        ExprToNullability L1 E = Some V \<longrightarrow>
        (\<exists>n. countPointersInExpr fuel E = Inr n \<and> length V = unat n))
   \<and> (ExprToNullability L E = None \<longrightarrow> Compute L = Inr (W, L2) \<longrightarrow>
        ExprToNullability L2 E = None \<longrightarrow>
        countPointersInExpr fuel E = Inr m \<longrightarrow> length W \<noteq> unat m \<longrightarrow>
        (\<exists>L3. computeNullability fuel E L Compute = Inr L3 \<and>
              ExprToNullability L3 E = Some (replicate (unat m) Unspecified)))"
proof (intro conjI impI)
  assume "lengthInvariant fuel L" "transferAllNonFlowSensitive fuel Es L = Inr L'"
  then show "lengthInvariant fuel L'" by (rule transferAll_preserves)
next
  assume e: "ExprToNullability L0 = Map.empty"
    and r: "transferAllNonFlowSensitive fuel Es L0 = Inr L1"
    and m: "ExprToNullability L1 E = Some V"
  from e have "lengthInvariant fuel L0" by (simp add: lengthInvariant_def)
  from transferAll_preserves[OF this r] m
  show "\<exists>n. countPointersInExpr fuel E = Inr n \<and> length V = unat n"
    by (simp add: lengthInvariant_def)
next
  assume "ExprToNullability L E = None" "Compute L = Inr (W, L2)"
    "ExprToNullability L2 E = None" "countPointersInExpr fuel E = Inr m" "length W \<noteq> unat m"
  then show "\<exists>L3. computeNullability fuel E L Compute = Inr L3 \<and>
              ExprToNullability L3 E = Some (replicate (unat m) Unspecified)"
    by (simp add: computeNullability_def insertExprNullabilityIfAbsent_def)
qed

theorem expr_nullability_length_witness:
  "\<exists>L n. transferAllNonFlowSensitive 0 [atomicLoad] emptyLattice = Inr L \<and>
        ExprToNullability L atomicPointer = Some [] \<and>
        ExprToNullability L atomicLoad = Some [Unspecified] \<and>
        countPointersInExpr 0 atomicLoad = Inr n \<and> unat n = 1"
proof -
  let ?L = "emptyLattice\<lparr>ExprToNullability :=
              [atomicPointer \<mapsto> [], atomicLoad \<mapsto> [Unspecified]]\<rparr>"
  have run: "transferAllNonFlowSensitive 0 [atomicLoad] emptyLattice = Inr ?L"
    by (simp add: atomicLoad_def atomicPointer_def intPointer_def emptyLattice_def
        transfer_defs walker_defs)
  have e: "ExprToNullability emptyLattice = Map.empty" by (simp add: emptyLattice_def)
  have m: "ExprToNullability ?L atomicLoad = Some [Unspecified]" by simp
  have p: "ExprToNullability ?L atomicPointer = Some []"
    by (simp add: atomicLoad_def atomicPointer_def)
  from expr_nullability_length[of 0 emptyLattice "[atomicLoad]" ?L emptyLattice ?L
      atomicLoad "[Unspecified]"] run e m
  obtain n where "countPointersInExpr 0 atomicLoad = Inr n"
    and "length [Unspecified :: NullabilityKind] = unat n"
    by blast
  with run m p show ?thesis by auto
qed

text \<open>
  C1. The vector of a null-to-pointer cast is not an all-Unspecified vector with its
  top forced: it is the vector the walker gives for the type of the cast, annotations
  included, with its top forced to Nullable. For \<^verbatim>\<open>int * _Nonnull * pp = nullptr;\<close> it is
  \<^verbatim>\<open>[Nullable, NonNull]\<close>, not \<^verbatim>\<open>[Nullable, Unspecified]\<close>.
\<close>

theorem null_to_pointer_counterexample:
  "castNullability CK_NullToPointer 0 nullCast nullLiteral emptyLattice
     = Inr ([Nullable, NonNull], emptyLattice)
   \<and> unspecifiedNullability 0 nullCast = Inr [Unspecified, Unspecified]
   \<and> \<not> isNullPtrType (getType nullCast)
   \<and> [Nullable, NonNull] \<noteq> [Nullable, Unspecified]"
  by (simp add: nullCast_def nullLiteral_def intPointer_def walker_defs isNullPtrType_def
      setFront_def unspecifiedNullability_def countPointersInExpr_def exprType_def
      hasPlaceholderType_BoundMember_def replicate_2)

text \<open>
  C1, as amended. For a cast of kind null-to-pointer that is not yet in the lattice, the
  transfer stores the vector of annotations of the type of the cast with its first entry
  replaced by Nullable, unless the type is the null pointer type: then it stores the
  vector as it is, and the vector of \<^verbatim>\<open>nullptr_t\<close> is empty.
\<close>

theorem null_to_pointer_cast:
  assumes ty: "T \<noteq> BuiltinType BK_BoundMember"
    and ce: "CE = Expr i T (CastExpr Imp CK_NullToPointer SubExpr)"
    and absent: "ExprToNullability L CE = None"
    and walk: "getNullabilityAnnotationsFromType fuel T None = Inr V"
    and len: "length V < 2 ^ 32"
  shows "transferNonFlowSensitive fuel CE L =
     (if isNullPtrType T
      then Inr (L\<lparr>ExprToNullability := (ExprToNullability L)(CE \<mapsto> V)\<rparr>)
      else case V of
             [] \<Rightarrow> Inl EmptyVector
           | Top # Rest \<Rightarrow>
               Inr (L\<lparr>ExprToNullability := (ExprToNullability L)(CE \<mapsto> Nullable # Rest)\<rparr>))
     \<and> getNullabilityAnnotationsFromType fuel (BuiltinType BK_NullPtr) None = Inr []"
proof -
  have cnt: "countPointersInExpr fuel CE = Inr (word_of_nat (length V))"
    using ty by (simp add: countPointersInExpr_def exprType_def ce
        hasPlaceholderType_BoundMember_def count_vs_annotations walk)
  have un: "unat (word_of_nat (length V) :: 32 word) = length V"
    using len by (simp add: unat_of_nat)
  have "transferNonFlowSensitive fuel CE L =
     (if isNullPtrType T
      then Inr (L\<lparr>ExprToNullability := (ExprToNullability L)(CE \<mapsto> V)\<rparr>)
      else case V of
             [] \<Rightarrow> Inl EmptyVector
           | Top # Rest \<Rightarrow>
               Inr (L\<lparr>ExprToNullability := (ExprToNullability L)(CE \<mapsto> Nullable # Rest)\<rparr>))"
    using absent cnt un
    by (cases V)
       (simp_all add: ce computeNullability_def insertExprNullabilityIfAbsent_def walk
          setFront_def)
  moreover have "getNullabilityAnnotationsFromType fuel (BuiltinType BK_NullPtr) None = Inr []"
    by (simp add: walker_defs)
  ultimately show ?thesis by simp
qed

theorem null_to_pointer_cast_witness:
  "transferNonFlowSensitive 0 nullCast emptyLattice =
     Inr (emptyLattice\<lparr>ExprToNullability := [nullCast \<mapsto> [Nullable, NonNull]]\<rparr>)"
proof -
  have ty: "PointerType (AttributedType (Some NonNull) intPointer) \<noteq> BuiltinType BK_BoundMember"
    by simp
  have ce: "nullCast = Expr 2 (PointerType (AttributedType (Some NonNull) intPointer))
      (CastExpr True CK_NullToPointer nullLiteral)"
    by (simp add: nullCast_def)
  have ab: "ExprToNullability emptyLattice nullCast = None" by (simp add: emptyLattice_def)
  have w: "getNullabilityAnnotationsFromType 0
      (PointerType (AttributedType (Some NonNull) intPointer)) None = Inr [Unspecified, NonNull]"
    by (simp add: intPointer_def walker_defs)
  have l: "length [Unspecified, NonNull] < 2 ^ 32" by simp
  have n: "\<not> isNullPtrType (PointerType (AttributedType (Some NonNull) intPointer))"
    by (simp add: isNullPtrType_def)
  from null_to_pointer_cast[OF ty ce ab w l] n show ?thesis
    by (simp add: emptyLattice_def)
qed

lemma addPointerCounts_sum:
  "list_all2 (\<lambda>TA n. countPointersInTemplateArgument fuel TA = Inr n) TAs ns \<Longrightarrow>
   addPointerCounts fuel TAs c = Inr (c + sum_list ns)"
  by (induction TAs ns arbitrary: c rule: list_all2_induct) (simp_all add: algebra_simps)

lemma example_step1:
  "transferNonFlowSensitive 0 xRef emptyLattice =
     Inr (emptyLattice\<lparr>ExprToNullability := [xRef \<mapsto> [Unspecified, NonNull]]\<rparr>)"
  by (simp add: example_defs transfer_defs walker_defs)

lemma example_step2:
  "transferNonFlowSensitive 0 xSecond
     (emptyLattice\<lparr>ExprToNullability := [xRef \<mapsto> [Unspecified, NonNull]]\<rparr>) =
     Inr (emptyLattice\<lparr>ExprToNullability :=
            [xRef \<mapsto> [Unspecified, NonNull], xSecond \<mapsto> [Nullable, NonNull]]\<rparr>)"
  by (simp add: example_defs transfer_defs walker_defs)

lemma example_step3:
  "transferNonFlowSensitive 0 xSecondCall
     (emptyLattice\<lparr>ExprToNullability :=
            [xRef \<mapsto> [Unspecified, NonNull], xSecond \<mapsto> [Nullable, NonNull]]\<rparr>) =
     Inr (emptyLattice\<lparr>ExprToNullability :=
            [xRef \<mapsto> [Unspecified, NonNull], xSecond \<mapsto> [Nullable, NonNull],
             xSecondCall \<mapsto> [Nullable, NonNull]]\<rparr>)"
  by (simp add: example_defs transfer_defs walker_defs)

text \<open>
  C4. For a member access on a base whose type is a class template specialization, the
  callback maps the substituted parameter with index \<open>i\<close> to the slice of the vector of
  the base that starts after the pointers of the enclosing class and of the arguments
  before \<open>i\<close> and has as many entries as argument \<open>i\<close> has pointers. For
  \<^verbatim>\<open>P<int *, int * _Nonnull> x\<close> the vector of \<^verbatim>\<open>x.second()\<close> is \<^verbatim>\<open>[Nullable, NonNull]\<close>.
\<close>

theorem class_template_slice:
  assumes base: "getAsCXXRecordDecl BaseType = Some D"
    and spec: "asSpecialization D = Some Specialization"
    and assoc: "declId D = AssociatedD"
    and dc: "countPointersInDeclContext fuel (getDeclContext D) = Inr dc"
    and counts: "list_all2 (\<lambda>TA n. countPointersInTemplateArgument fuel TA = Inr n)
                   (getTemplateArgs Specialization) ns"
    and i: "i < length ns"
    and before: "before = unat (dc + sum_list (take i ns))"
    and sl: "sliceSize = unat (ns ! i)"
    and range: "before + sliceSize \<le> length BaseNullability"
  shows "classTemplateParamNullability fuel BaseNullability BaseType
           (SubstTemplateTypeParmType AssociatedD i None False Replacement)
         = Inr (Some (take sliceSize (drop before BaseNullability)))
       \<and> (\<exists>L. transferAllNonFlowSensitive 0 [xRef, xSecond, xSecondCall] emptyLattice = Inr L
              \<and> ExprToNullability L xSecondCall = Some [Nullable, NonNull])"
proof -
  have len: "length (getTemplateArgs Specialization) = length ns"
    using counts by (rule list_all2_lengthD)
  have pre: "addPointerCounts fuel (take i (getTemplateArgs Specialization)) dc
               = Inr (dc + sum_list (take i ns))"
    by (rule addPointerCounts_sum) (rule list_all2_takeI[OF counts])
  have ith: "countPointersInTemplateArgument fuel (getTemplateArgs Specialization ! i)
               = Inr (ns ! i)"
    using counts i by (simp add: list_all2_conv_all_nth)
  have hook: "classTemplateParamNullability fuel BaseNullability BaseType
           (SubstTemplateTypeParmType AssociatedD i None False Replacement)
         = Inr (Some (take sliceSize (drop before BaseNullability)))"
    using i range
    by (simp add: base spec assoc dc pre ith len slice_def before sl)
  have ex: "transferAllNonFlowSensitive 0 [xRef, xSecond, xSecondCall] emptyLattice =
     Inr (emptyLattice\<lparr>ExprToNullability :=
            [xRef \<mapsto> [Unspecified, NonNull], xSecond \<mapsto> [Nullable, NonNull],
             xSecondCall \<mapsto> [Nullable, NonNull]]\<rparr>)"
    by (simp add: example_step1 example_step2 example_step3)
  show ?thesis using hook ex by simp
qed

theorem class_template_slice_witness:
  "classTemplateParamNullability 0 [Unspecified, NonNull] pairType
     (SubstTemplateTypeParmType 1 1 None False intPointer) = Inr (Some [NonNull])"
proof -
  have base: "getAsCXXRecordDecl pairType = Some pairDecl" by (simp add: pairType_def)
  have spec: "asSpecialization pairDecl =
      Some (ClassTemplateSpecializationDecl [TA_Type intPointer, TA_Type intPointer]
        (ClassTemplateDecl 10 None) False)" by (simp add: pairDecl_def)
  have assoc: "declId pairDecl = 1" by (simp add: pairDecl_def)
  have dc: "countPointersInDeclContext 0 (getDeclContext pairDecl) = Inr 0"
    by (simp add: pairDecl_def walker_defs)
  have counts: "list_all2 (\<lambda>TA n. countPointersInTemplateArgument 0 TA = Inr n)
      (getTemplateArgs (ClassTemplateSpecializationDecl [TA_Type intPointer, TA_Type intPointer]
        (ClassTemplateDecl 10 None) False)) [1, 1]"
    by (simp add: intPointer_def walker_defs)
  have i: "1 < length [1 :: 32 word, 1]" by simp
  have before: "1 = unat (0 + sum_list (take 1 [1 :: 32 word, 1]))" by simp
  have sl: "1 = unat ([1 :: 32 word, 1] ! 1)" by simp
  have range: "(1::nat) + 1 \<le> length [Unspecified, NonNull]" by simp
  from class_template_slice[OF base spec assoc dc counts i before sl range,
      of intPointer]
  show ?thesis by simp
qed

section \<open>Properties of the flow-sensitive transfer\<close>

text \<open>
  C6. On a comparison of two pointers whose values have a null state, the transfer adds
  exactly three implications to the flow condition: both null implies equal, and one
  null with the other not null implies not equal, in both orders; not equal is the
  negation of equal. When neither pointer is null the three hold whatever the
  comparison is: nothing relates two pointers that are not null.
\<close>

theorem null_check_comparison:
  assumes cls: "stmtClass BinaryOp = BinaryOperator Opcode LHSExpr RHSExpr"
    and opc: "Opcode = BO_EQ \<or> Opcode = BO_NE"
    and cmp: "ExprToValue (Env State) BinaryOp = Some (BoolVal Cmp)"
    and lhs: "getPointerValueFromExpr LHSExpr (Env State) = Some LHS"
    and rhs: "getPointerValueFromExpr RHSExpr (Env State) = Some RHS"
    and ln: "NullState (Env State) LHS = Some (LK, LN)"
    and rn: "NullState (Env State) RHS = Some (RK, RN)"
    and eq: "EQ = (if Opcode = BO_EQ then Cmp else NegationValue Cmp)"
    and ne: "NE = (if Opcode = BO_EQ then NegationValue Cmp else Cmp)"
  shows "transferFlowSensitiveNullCheckComparison BinaryOp State =
           Inr (State\<lparr>Env := (Env State)\<lparr>FlowCondition := FlowCondition (Env State) @
              [ImplicationValue (ConjunctionValue LN RN) EQ,
               ImplicationValue (ConjunctionValue LN (NegationValue RN)) NE,
               ImplicationValue (ConjunctionValue (NegationValue LN) RN) NE]\<rparr>\<rparr>)
         \<and> (\<forall>v. evalBool v NE = (\<not> evalBool v EQ))
         \<and> (\<forall>v. \<not> evalBool v LN \<and> \<not> evalBool v RN \<longrightarrow>
               evalBool v (ImplicationValue (ConjunctionValue LN RN) EQ) \<and>
               evalBool v (ImplicationValue (ConjunctionValue LN (NegationValue RN)) NE) \<and>
               evalBool v (ImplicationValue (ConjunctionValue (NegationValue LN) RN) NE))"
  using opc
  by (auto simp: transferFlowSensitiveNullCheckComparison_def cls cmp lhs rhs ln rn eq ne
      getPointerNullState_def addToFlowCondition_def makeImplication_def makeAnd_def
      makeNot_def Let_def)

theorem null_check_comparison_witness:
  "\<exists>State'. transferFlowSensitiveNullCheckComparison comparison comparisonState = Inr State' \<and>
     FlowCondition (Env State') =
       [ImplicationValue (ConjunctionValue (AtomicBoolValue 1) (AtomicBoolValue 3))
          (NegationValue (AtomicBoolValue 4)),
        ImplicationValue (ConjunctionValue (AtomicBoolValue 1) (NegationValue (AtomicBoolValue 3)))
          (AtomicBoolValue 4),
        ImplicationValue (ConjunctionValue (NegationValue (AtomicBoolValue 1)) (AtomicBoolValue 3))
          (AtomicBoolValue 4)]"
proof -
  have cls: "stmtClass comparison = BinaryOperator BO_NE pValue qValue"
    by (simp add: comparison_def)
  have opc: "BO_NE = BO_EQ \<or> BO_NE = BO_NE" by simp
  have ne: "pValue \<noteq> qValue" "comparison \<noteq> qValue" "comparison \<noteq> pValue"
    by (simp_all add: pValue_def qValue_def comparison_def)
  have cmp: "ExprToValue (Env comparisonState) comparison = Some (BoolVal (AtomicBoolValue 4))"
    by (simp add: comparisonState_def)
  have lhs: "getPointerValueFromExpr pValue (Env comparisonState) = Some 0"
    using ne by (simp add: comparisonState_def getPointerValueFromExpr_def)
  have rhs: "getPointerValueFromExpr qValue (Env comparisonState) = Some 1"
    using ne by (simp add: comparisonState_def getPointerValueFromExpr_def)
  have ln: "NullState (Env comparisonState) 0 = Some (AtomicBoolValue 0, AtomicBoolValue 1)"
    by (simp add: comparisonState_def)
  have rn: "NullState (Env comparisonState) 1 = Some (AtomicBoolValue 2, AtomicBoolValue 3)"
    by (simp add: comparisonState_def)
  from null_check_comparison[OF cls opc cmp lhs rhs ln rn refl refl]
  show ?thesis by (simp add: comparisonState_def)
qed






end
